theory Spec2Isabelle
  imports Main "HOL-Library.Word"
begin

section \<open>Configuration loader of \<^verbatim>\<open>config/default.go\<close>\<close>

subsection \<open>Dynamic values\<close>

text \<open>
  Go's \<^verbatim>\<open>interface{}\<close> as it occurs in a decoded document: \<^verbatim>\<open>nil\<close>, the primitive types
  the typed getters name, slices, and the two map representations a decoder produces
  (\<^verbatim>\<open>map[string]interface{}\<close> and \<^verbatim>\<open>map[interface{}]interface{}\<close>). A map is an association
  list read with \<open>map_of\<close>. \<^verbatim>\<open>int\<close> and \<^verbatim>\<open>uint\<close> are 64 bits wide; a float is carried as its
  IEEE bit pattern, since this file never computes with one.
\<close>

datatype dynval =
    VNil
  | VBool bool
  | VString string
  | VInt "64 word"
  | VInt32 "32 word"
  | VInt64 "64 word"
  | VUint "64 word"
  | VUint32 "32 word"
  | VUint64 "64 word"
  | VFloat32 "32 word"
  | VFloat64 "64 word"
  | VSlice "dynval list"
  | VMapS "(string \<times> dynval) list"
  | VMapI "(dynval \<times> dynval) list"

text \<open>
  The errors of the package (lines 15-22). \<open>ErrMsg\<close> is an error built by
  \<^verbatim>\<open>fmt.Errorf\<close>, carried as its text.
\<close>

datatype error =
    ErrConfigNotExist
  | ErrProviderNotExist
  | ErrCodecNotExist
  | ErrMsg string

text \<open>
  A call either returns or panics (a nil interface whose method is called).
\<close>

datatype 'a exec = Panic | Done 'a

subsection \<open>The coercion library\<close>

text \<open>
  \<^verbatim>\<open>github.com/spf13/cast\<close> is imported by the package and is not part of it. Its
  error-returning conversions are parameters of the model: each takes a dynamic value and
  returns the converted value or an error text. \<open>jsonStringToObject\<close> is the map the
  library reads from a string that holds a JSON object.
\<close>

record castlib =
  ToBoolE :: "dynval \<Rightarrow> string + bool"
  ToStringE :: "dynval \<Rightarrow> string + string"
  ToIntE :: "dynval \<Rightarrow> string + 64 word"
  ToInt32E :: "dynval \<Rightarrow> string + 32 word"
  ToInt64E :: "dynval \<Rightarrow> string + 64 word"
  ToUintE :: "dynval \<Rightarrow> string + 64 word"
  ToUint32E :: "dynval \<Rightarrow> string + 32 word"
  ToUint64E :: "dynval \<Rightarrow> string + 64 word"
  ToFloat64E :: "dynval \<Rightarrow> string + 64 word"
  ToFloat32E :: "dynval \<Rightarrow> string + 32 word"
  jsonStringToObject :: "string \<Rightarrow> (string \<times> dynval) list"

text \<open>
  The library's plain conversions drop the error and return what the \<open>E\<close> variant
  returned with it, which is the zero value of the target type:
  \<^verbatim>\<open>func ToInt(i interface{}) int { v, _ := ToIntE(i); return v }\<close>.
\<close>

definition ToBool :: "castlib \<Rightarrow> dynval \<Rightarrow> bool" where
  "ToBool C v = (case ToBoolE C v of Inl _ \<Rightarrow> False | Inr b \<Rightarrow> b)"

definition ToString :: "castlib \<Rightarrow> dynval \<Rightarrow> string" where
  "ToString C v = (case ToStringE C v of Inl _ \<Rightarrow> [] | Inr s \<Rightarrow> s)"

definition ToInt :: "castlib \<Rightarrow> dynval \<Rightarrow> 64 word" where
  "ToInt C v = (case ToIntE C v of Inl _ \<Rightarrow> 0 | Inr n \<Rightarrow> n)"

definition ToInt32 :: "castlib \<Rightarrow> dynval \<Rightarrow> 32 word" where
  "ToInt32 C v = (case ToInt32E C v of Inl _ \<Rightarrow> 0 | Inr n \<Rightarrow> n)"

definition ToInt64 :: "castlib \<Rightarrow> dynval \<Rightarrow> 64 word" where
  "ToInt64 C v = (case ToInt64E C v of Inl _ \<Rightarrow> 0 | Inr n \<Rightarrow> n)"

definition ToUint :: "castlib \<Rightarrow> dynval \<Rightarrow> 64 word" where
  "ToUint C v = (case ToUintE C v of Inl _ \<Rightarrow> 0 | Inr n \<Rightarrow> n)"

definition ToUint32 :: "castlib \<Rightarrow> dynval \<Rightarrow> 32 word" where
  "ToUint32 C v = (case ToUint32E C v of Inl _ \<Rightarrow> 0 | Inr n \<Rightarrow> n)"

definition ToUint64 :: "castlib \<Rightarrow> dynval \<Rightarrow> 64 word" where
  "ToUint64 C v = (case ToUint64E C v of Inl _ \<Rightarrow> 0 | Inr n \<Rightarrow> n)"

definition ToFloat64 :: "castlib \<Rightarrow> dynval \<Rightarrow> 64 word" where
  "ToFloat64 C v = (case ToFloat64E C v of Inl _ \<Rightarrow> 0 | Inr n \<Rightarrow> n)"

definition ToFloat32 :: "castlib \<Rightarrow> dynval \<Rightarrow> 32 word" where
  "ToFloat32 C v = (case ToFloat32E C v of Inl _ \<Rightarrow> 0 | Inr n \<Rightarrow> n)"

text \<open>
  \<^verbatim>\<open>cast.ToStringMap\<close>, which the lookup calls on the root of the tree and on every
  interface-keyed map it walks through. The library's function is
  \<^verbatim>\<open>
  func ToStringMapE(i interface{}) (map[string]interface{}, error) {
      var m = map[string]interface{}{}
      switch v := i.(type) {
      case map[interface{}]interface{}:
          for k, val := range v { m[ToString(k)] = val }
          return m, nil
      case map[string]interface{}:
          return v, nil
      case string:
          err := jsonStringToObject(v, &m)
          return m, err
      default:
          return m, fmt.Errorf(...)
      }
  }
  \<close>
  and \<^verbatim>\<open>ToStringMap\<close> returns its map whatever the error. An assignment to a key already
  present overwrites it. Go leaves the order of the \<^verbatim>\<open>range\<close> loop open; here it is the order
  of the association list, so that a property stated for every list holds for every order
  the loop may take.
\<close>

fun assign :: "string \<Rightarrow> dynval \<Rightarrow> (string \<times> dynval) list \<Rightarrow> (string \<times> dynval) list" where
  "assign k v [] = [(k, v)]"
| "assign k v ((k', v') # m) = (if k = k' then (k, v) # m else (k', v') # assign k v m)"

fun ToStringMap :: "castlib \<Rightarrow> dynval \<Rightarrow> (string \<times> dynval) list" where
  "ToStringMap C (VMapI kvs) = foldl (\<lambda>m (k, val). assign (ToString C k) val m) [] kvs"
| "ToStringMap C (VMapS m) = m"
| "ToStringMap C (VString s) = jsonStringToObject C s"
| "ToStringMap C _ = []"

subsection \<open>The configuration instance and its lookups\<close>

text \<open>
  A provider reads the bytes of a path or fails with an error text. What it reads depends
  on the data source at the time of the call: \<open>prov_Read prov t pth\<close> is the result of
  \<^verbatim>\<open>Read(pth)\<close> called at time \<open>t\<close>, and every operation that reads takes the time of its
  call. A codec decodes bytes into the value its \<^verbatim>\<open>out\<close> pointer refers to:
  \<open>codec_Unmarshal d data old\<close> is the error, if any, and the value behind the pointer when
  the call returns, \<open>old\<close> being the value before the call. Bytes are a \<open>string\<close>, a list of
  8-bit characters.
\<close>

record DataProvider =
  prov_Name :: string
  prov_Read :: "nat \<Rightarrow> string \<Rightarrow> string + string"

record Codec =
  codec_Name :: string
  codec_Unmarshal :: "string \<Rightarrow> dynval \<Rightarrow> string option \<times> dynval"

text \<open>The struct of lines 146-152; a nil interface is \<open>None\<close>.\<close>

record FrameworkConfig =
  p :: "DataProvider option"
  unmarshedData :: "dynval"
  path :: string
  decoder :: "Codec option"
  rawData :: string

text \<open>
  \<^verbatim>\<open>strings.Split(key, ".")\<close> (line 362): the substrings between the dots, one more than
  there are dots, so never an empty list.
\<close>

fun parseKey :: "string \<Rightarrow> string list" where
  "parseKey [] = [[]]"
| "parseKey (c # cs) =
     (if c = CHR ''.'' then [] # parseKey cs
      else (case parseKey cs of [] \<Rightarrow> [[c]] | w # ws \<Rightarrow> (c # w) # ws))"

text \<open>Lines 269-293.\<close>

fun search :: "castlib \<Rightarrow> (string \<times> dynval) list \<Rightarrow> string list \<Rightarrow> error + dynval" where
  "search C unmarshed [] = Inl ErrConfigNotExist"
| "search C unmarshed (k # ks) =
     (case map_of unmarshed k of
        Some next \<Rightarrow>
          if ks = [] then Inr next
          else (case next of
                  VMapI kvs \<Rightarrow> search C (ToStringMap C next) ks
                | VMapS m \<Rightarrow> search C m ks
                | _ \<Rightarrow> Inl ErrConfigNotExist)
      | None \<Rightarrow> Inl ErrConfigNotExist)"

definition locateSubkey :: "castlib \<Rightarrow> FrameworkConfig \<Rightarrow> string list \<Rightarrow> error + dynval" where
  "locateSubkey C c subkeys = search C (ToStringMap C (unmarshedData c)) subkeys"

definition find_cfg :: "castlib \<Rightarrow> FrameworkConfig \<Rightarrow> string \<Rightarrow> error + dynval" where
  "find_cfg C c key = locateSubkey C c (parseKey key)"

definition Get :: "castlib \<Rightarrow> FrameworkConfig \<Rightarrow> string \<Rightarrow> dynval \<Rightarrow> dynval" where
  "Get C c key defaultValue =
     (case find_cfg C c key of Inr v \<Rightarrow> v | Inl _ \<Rightarrow> defaultValue)"

definition IsSet :: "castlib \<Rightarrow> FrameworkConfig \<Rightarrow> string \<Rightarrow> bool" where
  "IsSet C c key =
     (case locateSubkey C c (parseKey key) of Inl _ \<Rightarrow> False | Inr _ \<Rightarrow> True)"

text \<open>
  Lines 173-208. The type switch on the default selects the conversion; the converted
  value comes back boxed in the type of the default.
\<close>

definition findWithDefaultValue :: "castlib \<Rightarrow> FrameworkConfig \<Rightarrow> string \<Rightarrow> dynval \<Rightarrow> dynval" where
  "findWithDefaultValue C c key defaultValue =
     (case find_cfg C c key of
        Inl _ \<Rightarrow> defaultValue
      | Inr v \<Rightarrow>
          (case (case defaultValue of
                   VBool _ \<Rightarrow> map_sum id VBool (ToBoolE C v)
                 | VString _ \<Rightarrow> map_sum id VString (ToStringE C v)
                 | VInt _ \<Rightarrow> map_sum id VInt (ToIntE C v)
                 | VInt32 _ \<Rightarrow> map_sum id VInt32 (ToInt32E C v)
                 | VInt64 _ \<Rightarrow> map_sum id VInt64 (ToInt64E C v)
                 | VUint _ \<Rightarrow> map_sum id VUint (ToUintE C v)
                 | VUint32 _ \<Rightarrow> map_sum id VUint32 (ToUint32E C v)
                 | VUint64 _ \<Rightarrow> map_sum id VUint64 (ToUint64E C v)
                 | VFloat64 _ \<Rightarrow> map_sum id VFloat64 (ToFloat64E C v)
                 | VFloat32 _ \<Rightarrow> map_sum id VFloat32 (ToFloat32E C v)
                 | _ \<Rightarrow> Inr v) of
             Inl _ \<Rightarrow> defaultValue
           | Inr v' \<Rightarrow> v'))"

text \<open>Lines 210-253.\<close>

definition GetInt :: "castlib \<Rightarrow> FrameworkConfig \<Rightarrow> string \<Rightarrow> 64 word \<Rightarrow> 64 word" where
  "GetInt C c key defaultValue = ToInt C (findWithDefaultValue C c key (VInt defaultValue))"

definition GetInt32 :: "castlib \<Rightarrow> FrameworkConfig \<Rightarrow> string \<Rightarrow> 32 word \<Rightarrow> 32 word" where
  "GetInt32 C c key defaultValue = ToInt32 C (findWithDefaultValue C c key (VInt32 defaultValue))"

definition GetInt64 :: "castlib \<Rightarrow> FrameworkConfig \<Rightarrow> string \<Rightarrow> 64 word \<Rightarrow> 64 word" where
  "GetInt64 C c key defaultValue = ToInt64 C (findWithDefaultValue C c key (VInt64 defaultValue))"

definition GetUint :: "castlib \<Rightarrow> FrameworkConfig \<Rightarrow> string \<Rightarrow> 64 word \<Rightarrow> 64 word" where
  "GetUint C c key defaultValue = ToUint C (findWithDefaultValue C c key (VUint defaultValue))"

definition GetUint32 :: "castlib \<Rightarrow> FrameworkConfig \<Rightarrow> string \<Rightarrow> 32 word \<Rightarrow> 32 word" where
  "GetUint32 C c key defaultValue = ToUint32 C (findWithDefaultValue C c key (VUint32 defaultValue))"

definition GetUint64 :: "castlib \<Rightarrow> FrameworkConfig \<Rightarrow> string \<Rightarrow> 64 word \<Rightarrow> 64 word" where
  "GetUint64 C c key defaultValue = ToUint64 C (findWithDefaultValue C c key (VUint64 defaultValue))"

definition GetFloat64 :: "castlib \<Rightarrow> FrameworkConfig \<Rightarrow> string \<Rightarrow> 64 word \<Rightarrow> 64 word" where
  "GetFloat64 C c key defaultValue = ToFloat64 C (findWithDefaultValue C c key (VFloat64 defaultValue))"

definition GetFloat32 :: "castlib \<Rightarrow> FrameworkConfig \<Rightarrow> string \<Rightarrow> 32 word \<Rightarrow> 32 word" where
  "GetFloat32 C c key defaultValue = ToFloat32 C (findWithDefaultValue C c key (VFloat32 defaultValue))"

definition GetBool :: "castlib \<Rightarrow> FrameworkConfig \<Rightarrow> string \<Rightarrow> bool \<Rightarrow> bool" where
  "GetBool C c key defaultValue = ToBool C (findWithDefaultValue C c key (VBool defaultValue))"

text \<open>Lines 296-313.\<close>

definition GetString :: "castlib \<Rightarrow> FrameworkConfig \<Rightarrow> string \<Rightarrow> string \<Rightarrow> string" where
  "GetString C c key defaultValue =
     (case locateSubkey C c (parseKey key) of
        Inl _ \<Rightarrow> defaultValue
      | Inr v \<Rightarrow>
          (case v of
             VString result \<Rightarrow> result
           | _ \<Rightarrow> (case ToStringE C v of Inr result \<Rightarrow> result | Inl _ \<Rightarrow> defaultValue)))"

subsection \<open>Loading and reloading an instance\<close>

text \<open>
  \<^verbatim>\<open>Load\<close> (lines 316-332) returns its error and leaves the instance as the assignments
  of lines 325-327 made it. The call of \<^verbatim>\<open>c.decoder.Unmarshal\<close> panics on a nil decoder.
\<close>

definition FrameworkConfig_Load ::
  "nat \<Rightarrow> FrameworkConfig \<Rightarrow> (error option \<times> FrameworkConfig) exec" where
  "FrameworkConfig_Load t c =
     (case p c of
        None \<Rightarrow> Done (Some ErrProviderNotExist, c)
      | Some prov \<Rightarrow>
          (case prov_Read prov t (path c) of
             Inl err \<Rightarrow>
               Done (Some (ErrMsg (''app/config: failed to load '' @ path c @ '': '' @ err)), c)
           | Inr data \<Rightarrow>
               (let c1 = c\<lparr>rawData := data, unmarshedData := VMapS []\<rparr> in
                case decoder c1 of
                  None \<Rightarrow> Panic
                | Some d \<Rightarrow>
                    (case codec_Unmarshal d (rawData c1) (unmarshedData c1) of
                       (Some err, out) \<Rightarrow>
                         Done (Some (ErrMsg (''app/config: failed to parse '' @ path c1 @ '': '' @ err)),
                               c1\<lparr>unmarshedData := out\<rparr>)
                     | (None, out) \<Rightarrow> Done (None, c1\<lparr>unmarshedData := out\<rparr>)))))"

text \<open>
  \<^verbatim>\<open>Reload\<close> (lines 335-354) decodes into a local variable and assigns both fields at the
  end. It returns nothing; the second component is what it printed.
\<close>

definition FrameworkConfig_Reload ::
  "nat \<Rightarrow> FrameworkConfig \<Rightarrow> (FrameworkConfig \<times> string list) exec" where
  "FrameworkConfig_Reload t c =
     (case p c of
        None \<Rightarrow> Done (c, [])
      | Some prov \<Rightarrow>
          (case prov_Read prov t (path c) of
             Inl err \<Rightarrow> Done (c, [''app/config: failed to reload '' @ path c @ '': '' @ err])
           | Inr data \<Rightarrow>
               (case decoder c of
                  None \<Rightarrow> Panic
                | Some d \<Rightarrow>
                    (case codec_Unmarshal d data (VMapS []) of
                       (Some err, _) \<Rightarrow>
                         Done (c, [''app/config: failed to parse '' @ path c @ '': '' @ err])
                     | (None, unmarshed) \<Rightarrow>
                         Done (c\<lparr>rawData := data, unmarshedData := unmarshed\<rparr>, [])))))"

subsection \<open>The loader\<close>

text \<open>
  \<^verbatim>\<open>GetProvider\<close> and the YAML decoder behind \<^verbatim>\<open>YamlCodec.Unmarshal\<close> are declared outside
  \<^verbatim>\<open>default.go\<close>; the model takes them as parameters. A provider that is not registered
  is nil.
\<close>

record registry =
  GetProvider :: "string \<Rightarrow> DataProvider option"
  yaml_Unmarshal :: "string \<Rightarrow> dynval \<Rightarrow> string option \<times> dynval"

definition YamlCodec :: "registry \<Rightarrow> Codec" where
  "YamlCodec R = \<lparr>codec_Name = ''yaml'', codec_Unmarshal = yaml_Unmarshal R\<rparr>"

text \<open>Lines 365-372; the fields the literal leaves out are zero.\<close>

definition newFullConfig :: "registry \<Rightarrow> string \<Rightarrow> FrameworkConfig" where
  "newFullConfig R pth =
     \<lparr>p = GetProvider R ''file'', unmarshedData = VNil, path = pth,
      decoder = Some (YamlCodec R), rawData = []\<rparr>"

type_synonym LoadOption = "FrameworkConfig \<Rightarrow> FrameworkConfig"

definition apply_opts :: "FrameworkConfig \<Rightarrow> LoadOption list \<Rightarrow> FrameworkConfig" where
  "apply_opts yc opts = foldl (\<lambda>c opt. opt c) yc opts"

text \<open>
  The loader and the instances it has handed out. An instance is a pointer: \<open>store\<close> maps
  a reference to the struct behind it and \<open>next_ref\<close> is the next fresh reference.
  \<open>configMap\<close> is the cache. \<open>watchers\<close> are the callbacks handed to \<^verbatim>\<open>Watch\<close>, each as the
  provider's name and the \<^verbatim>\<open>path\<close> and \<^verbatim>\<open>key\<close> its closure captured. \<open>stdout\<close> collects what
  \<^verbatim>\<open>fmt.Printf\<close> wrote.
\<close>

record loader_state =
  store :: "nat \<rightharpoonup> FrameworkConfig"
  next_ref :: nat
  configMap :: "string \<rightharpoonup> nat"
  watchers :: "(string \<times> string \<times> string) list"
  stdout :: "string list"

text \<open>Line 99-101.\<close>

definition newFullConfigLoad :: loader_state where
  "newFullConfigLoad =
     \<lparr>store = Map.empty, next_ref = 0, configMap = Map.empty, watchers = [], stdout = []\<rparr>"

text \<open>Lines 54 and 88: \<^verbatim>\<open>fmt.Sprintf("%s.%s.%s", ...)\<close>.\<close>

definition cache_key :: "Codec \<Rightarrow> DataProvider \<Rightarrow> string \<Rightarrow> string" where
  "cache_key d prov pth = codec_Name d @ ''.'' @ prov_Name prov @ ''.'' @ pth"

text \<open>
  Lines 40-80. The instance under construction is a local value until line 68 stores it
  in the cache; from then on it lives in the store.
\<close>

definition FullConfigLoader_Load ::
  "registry \<Rightarrow> nat \<Rightarrow> loader_state \<Rightarrow> string \<Rightarrow> LoadOption list \<Rightarrow>
     ((error + nat) \<times> loader_state) exec" where
  "FullConfigLoader_Load R t s pth opts =
     (let yc = apply_opts (newFullConfig R pth) opts in
      case decoder yc of
        None \<Rightarrow> Done (Inl ErrCodecNotExist, s)
      | Some d \<Rightarrow>
          (case p yc of
             None \<Rightarrow> Done (Inl ErrProviderNotExist, s)
           | Some prov \<Rightarrow>
               (let key = cache_key d prov pth in
                case configMap s key of
                  Some c \<Rightarrow> Done (Inr c, s)
                | None \<Rightarrow>
                    (case FrameworkConfig_Load t yc of
                       Panic \<Rightarrow> Panic
                     | Done (Some err, _) \<Rightarrow> Done (Inl err, s)
                     | Done (None, yc') \<Rightarrow>
                         Done (Inr (next_ref s),
                               s\<lparr>store := (store s)(next_ref s \<mapsto> yc'),
                                 next_ref := Suc (next_ref s),
                                 configMap := (configMap s)(key \<mapsto> next_ref s),
                                 watchers := watchers s @ [(prov_Name prov, pth, key)]\<rparr>)))))"

text \<open>
  The same call as its locks cut it. The read lock is held for the lookup of lines 55-60
  and the write lock for the assignment of line 68; between them, and after line 69, no
  lock is held, so that calls of other goroutines may run between the three parts of one
  call: the resolution of the options and the lookup (lines 41-60), which returns at once
  or finds the key missing; the load of the instance under construction and, if it
  succeeds, the unchecked assignment into the cache (lines 62-69; the load reads the
  provider and writes only the instance under construction); and the registration of the
  callback (line 71), after which the call returns the instance.
\<close>

datatype lookup_result =
    Returned "error + nat"
  | Missed FrameworkConfig DataProvider string

definition Load_lookup ::
  "registry \<Rightarrow> loader_state \<Rightarrow> string \<Rightarrow> LoadOption list \<Rightarrow> lookup_result" where
  "Load_lookup R s pth opts =
     (let yc = apply_opts (newFullConfig R pth) opts in
      case decoder yc of
        None \<Rightarrow> Returned (Inl ErrCodecNotExist)
      | Some d \<Rightarrow>
          (case p yc of
             None \<Rightarrow> Returned (Inl ErrProviderNotExist)
           | Some prov \<Rightarrow>
               (let key = cache_key d prov pth in
                case configMap s key of
                  Some c \<Rightarrow> Returned (Inr c)
                | None \<Rightarrow> Missed yc prov key)))"

definition Load_insert ::
  "nat \<Rightarrow> loader_state \<Rightarrow> FrameworkConfig \<Rightarrow> string \<Rightarrow> ((error + nat) \<times> loader_state) exec" where
  "Load_insert t s yc key =
     (case FrameworkConfig_Load t yc of
        Panic \<Rightarrow> Panic
      | Done (Some err, _) \<Rightarrow> Done (Inl err, s)
      | Done (None, yc') \<Rightarrow>
          Done (Inr (next_ref s),
                s\<lparr>store := (store s)(next_ref s \<mapsto> yc'),
                  next_ref := Suc (next_ref s),
                  configMap := (configMap s)(key \<mapsto> next_ref s)\<rparr>))"

definition Load_watch :: "loader_state \<Rightarrow> DataProvider \<Rightarrow> string \<Rightarrow> string \<Rightarrow> loader_state" where
  "Load_watch s prov pth key = s\<lparr>watchers := watchers s @ [(prov_Name prov, pth, key)]\<rparr>"

text \<open>
  The callback of lines 71-77, for the \<^verbatim>\<open>path\<close> and \<^verbatim>\<open>key\<close> it captured, called with the
  changed path; and a provider delivering one change to every callback it holds.
\<close>

definition onChange :: "string \<Rightarrow> string \<Rightarrow> string \<Rightarrow> loader_state \<Rightarrow> loader_state" where
  "onChange pth key changed s =
     (if changed = pth then s\<lparr>configMap := (configMap s)(key := None)\<rparr> else s)"

definition notify :: "string \<Rightarrow> string \<Rightarrow> loader_state \<Rightarrow> loader_state" where
  "notify pname changed s =
     foldl (\<lambda>s' (n, pth, key). if n = pname then onChange pth key changed s' else s')
       s (watchers s)"

text \<open>
  Lines 83-97. Line 88 calls \<^verbatim>\<open>Name\<close> on the decoder and the provider with no nil check.
\<close>

definition FullConfigLoader_Reload ::
  "registry \<Rightarrow> nat \<Rightarrow> loader_state \<Rightarrow> string \<Rightarrow> LoadOption list \<Rightarrow>
     (error option \<times> loader_state) exec" where
  "FullConfigLoader_Reload R t s pth opts =
     (let yc = apply_opts (newFullConfig R pth) opts in
      case decoder yc of
        None \<Rightarrow> Panic
      | Some d \<Rightarrow>
          (case p yc of
             None \<Rightarrow> Panic
           | Some prov \<Rightarrow>
               (let key = cache_key d prov pth in
                case configMap s key of
                  Some a \<Rightarrow>
                    (case store s a of
                       None \<Rightarrow> Panic
                     | Some config \<Rightarrow>
                         (case FrameworkConfig_Reload t config of
                            Panic \<Rightarrow> Panic
                          | Done (config', out) \<Rightarrow>
                              Done (None, s\<lparr>store := (store s)(a \<mapsto> config'),
                                            stdout := stdout s @ out\<rparr>)))
                | None \<Rightarrow> Done (Some ErrConfigNotExist, s))))"

section \<open>Specification-level definitions\<close>

text \<open>
  Dotted-path navigation as the specification words it: a node is a mapping in one of the
  two representations, or it is not a mapping. A segment is present in an interface-keyed
  mapping when it is the text of one of its keys; where several keys have the same text,
  the one met last counts.
\<close>

fun spec_mapping :: "castlib \<Rightarrow> dynval \<Rightarrow> (string \<rightharpoonup> dynval) option" where
  "spec_mapping C (VMapS m) = Some (map_of m)"
| "spec_mapping C (VMapI kvs) = Some (map_of (rev (map (\<lambda>(k, v). (ToString C k, v)) kvs)))"
| "spec_mapping C _ = None"

text \<open>
  At each segment: the lookup fails when the current node is not a mapping or the segment
  is absent from it; a present last segment gives the result; a present segment that is
  not the last continues in the value found.
\<close>

fun spec_lookup :: "castlib \<Rightarrow> dynval \<Rightarrow> string list \<Rightarrow> error + dynval" where
  "spec_lookup C node [] = Inl ErrConfigNotExist"
| "spec_lookup C node (seg # rest) =
     (case spec_mapping C node of
        None \<Rightarrow> Inl ErrConfigNotExist
      | Some m \<Rightarrow>
          (case m seg of
             None \<Rightarrow> Inl ErrConfigNotExist
           | Some found \<Rightarrow> if rest = [] then Inr found else spec_lookup C found rest))"

text \<open>
  What the typed getters rely on in the coercion library: a value that already has the
  requested type converts to itself.
\<close>

definition cast_identity :: "castlib \<Rightarrow> bool" where
  "cast_identity C \<longleftrightarrow>
     (\<forall>b. ToBoolE C (VBool b) = Inr b) \<and>
     (\<forall>s. ToStringE C (VString s) = Inr s) \<and>
     (\<forall>n. ToIntE C (VInt n) = Inr n) \<and>
     (\<forall>n. ToInt32E C (VInt32 n) = Inr n) \<and>
     (\<forall>n. ToInt64E C (VInt64 n) = Inr n) \<and>
     (\<forall>n. ToUintE C (VUint n) = Inr n) \<and>
     (\<forall>n. ToUint32E C (VUint32 n) = Inr n) \<and>
     (\<forall>n. ToUint64E C (VUint64 n) = Inr n) \<and>
     (\<forall>x. ToFloat64E C (VFloat64 x) = Inr x) \<and>
     (\<forall>x. ToFloat32E C (VFloat32 x) = Inr x)"

text \<open>
  A typed getter as the specification words it: the found value coerced to the requested
  type when the key resolves and the coercion succeeds, the default otherwise.
\<close>

definition spec_typed_get ::
  "castlib \<Rightarrow> FrameworkConfig \<Rightarrow> string \<Rightarrow> (dynval \<Rightarrow> string + 'a) \<Rightarrow> 'a \<Rightarrow> 'a" where
  "spec_typed_get C c key conv dflt =
     (case find_cfg C c key of
        Inl _ \<Rightarrow> dflt
      | Inr v \<Rightarrow> (case conv v of Inl _ \<Rightarrow> dflt | Inr r \<Rightarrow> r))"

text \<open>
  Histories of a loader. A change notification of a provider for a path evicts a key when
  the provider holds a callback that captured this path and this key. \<open>evolves K s0 s\<close>:
  the state \<open>s\<close> is reached from \<open>s0\<close> by steps of the loader and its callers, none of which
  evicts a key of \<open>K\<close> or assigns a key of \<open>K\<close> for a \<^verbatim>\<open>Load\<close> that had found it missing
  earlier. The steps are: a whole call of the loader's \<^verbatim>\<open>Load\<close> or \<^verbatim>\<open>Reload\<close>, which no other
  call overlaps; the second part of an overlapping \<^verbatim>\<open>Load\<close>, which found its key missing
  in some state \<open>sl\<close> and now loads and assigns in the state \<open>s\<close>; the third part of such a
  call, the registration of its callback; a change notification; and a call of \<^verbatim>\<open>Load\<close> or
  \<^verbatim>\<open>Reload\<close> on an instance handed out. A state is reachable when it is reached from the
  new loader.
\<close>

definition evicts :: "string \<Rightarrow> string \<Rightarrow> loader_state \<Rightarrow> string \<Rightarrow> bool" where
  "evicts pname changed s key \<longleftrightarrow> (pname, changed, key) \<in> set (watchers s)"

inductive evolves :: "string set \<Rightarrow> loader_state \<Rightarrow> loader_state \<Rightarrow> bool"
  for K :: "string set" and s0 :: loader_state where
  start: "evolves K s0 s0"
| load:
    "evolves K s0 s \<Longrightarrow> FullConfigLoader_Load R t s pth opts = Done (r, s') \<Longrightarrow>
     evolves K s0 s'"
| load_insert:
    "evolves K s0 s \<Longrightarrow> Load_lookup R sl pth opts = Missed yc prov key \<Longrightarrow> key \<notin> K \<Longrightarrow>
     Load_insert t s yc key = Done (r, s') \<Longrightarrow> evolves K s0 s'"
| load_watch:
    "evolves K s0 s \<Longrightarrow> evolves K s0 (Load_watch s prov pth key)"
| reload:
    "evolves K s0 s \<Longrightarrow> FullConfigLoader_Reload R t s pth opts = Done (e, s') \<Longrightarrow>
     evolves K s0 s'"
| change:
    "evolves K s0 s \<Longrightarrow> \<forall>key\<in>K. \<not> evicts pname changed s key \<Longrightarrow>
     evolves K s0 (notify pname changed s)"
| instance_load:
    "evolves K s0 s \<Longrightarrow> store s a = Some c \<Longrightarrow> FrameworkConfig_Load t c = Done (e, c') \<Longrightarrow>
     evolves K s0 (s\<lparr>store := (store s)(a \<mapsto> c')\<rparr>)"
| instance_reload:
    "evolves K s0 s \<Longrightarrow> store s a = Some c \<Longrightarrow> FrameworkConfig_Reload t c = Done (c', out) \<Longrightarrow>
     evolves K s0 (s\<lparr>store := (store s)(a \<mapsto> c'), stdout := stdout s @ out\<rparr>)"

definition reachable :: "loader_state \<Rightarrow> bool" where
  "reachable s \<longleftrightarrow> evolves {} newFullConfigLoad s"

text \<open>
  What holds of every reachable state: a cached reference leads to an instance that has a
  provider and a decoder, and no reference from \<open>next_ref\<close> on is in use.
\<close>

definition cached_ok :: "loader_state \<Rightarrow> bool" where
  "cached_ok s \<longleftrightarrow>
     (\<forall>key a. configMap s key = Some a \<longrightarrow>
        (\<exists>c. store s a = Some c \<and> p c \<noteq> None \<and> decoder c \<noteq> None))
     \<and> (\<forall>a c. store s a = Some c \<longrightarrow> a < next_ref s)"

section \<open>Example objects\<close>

text \<open>
  A codec that knows two documents and rejects every other input without touching its
  target. A provider of one file, which holds \<^verbatim>\<open>k: v\<close> at time 0, \<^verbatim>\<open>k: w\<close> at time 1 and
  the undecodable \<^verbatim>\<open>{\<close> from time 2 on. An instance that loaded the file at time 0. A
  registry with that provider as \<^verbatim>\<open>file\<close> and that codec for YAML.
\<close>

definition example_Unmarshal :: "string \<Rightarrow> dynval \<Rightarrow> string option \<times> dynval" where
  "example_Unmarshal data old =
     (if data = ''k: v'' then (None, VMapS [(''k'', VString ''v'')])
      else if data = ''k: w'' then (None, VMapS [(''k'', VString ''w'')])
      else (Some ''syntax error'', old))"

definition example_codec :: Codec where
  "example_codec = \<lparr>codec_Name = ''yaml'', codec_Unmarshal = example_Unmarshal\<rparr>"

definition example_provider :: DataProvider where
  "example_provider =
     \<lparr>prov_Name = ''file'',
      prov_Read = (\<lambda>t pth.
        if pth = ''app.yaml''
        then Inr (if t = 0 then ''k: v'' else if t = 1 then ''k: w'' else ''{'')
        else Inl ''no such file'')\<rparr>"

definition example_config :: FrameworkConfig where
  "example_config =
     \<lparr>p = Some example_provider, unmarshedData = VMapS [(''k'', VString ''v'')],
      path = ''app.yaml'', decoder = Some example_codec, rawData = ''k: v''\<rparr>"

definition example_registry :: registry where
  "example_registry =
     \<lparr>GetProvider = (\<lambda>name. if name = ''file'' then Some example_provider else None),
      yaml_Unmarshal = example_Unmarshal\<rparr>"

text \<open>
  An instance of the coercion library, enough to run the lookups on: every conversion
  accepts a value of its own type, \<open>ToStringE\<close> also accepts nil and the booleans, and
  \<open>ToIntE\<close> also accepts a string of decimal digits.
\<close>

fun decimal :: "nat \<Rightarrow> string \<Rightarrow> nat option" where
  "decimal acc [] = Some acc"
| "decimal acc (c # cs) =
     (if c \<in> set ''0123456789'' then decimal (10 * acc + (of_char c - 48)) cs else None)"

definition unable :: "string + 'a" where
  "unable = Inl ''unable to cast''"

definition cast_min :: castlib where
  "cast_min =
     \<lparr>ToBoolE = (\<lambda>v. case v of VBool b \<Rightarrow> Inr b | _ \<Rightarrow> unable),
      ToStringE = (\<lambda>v. case v of
                     VString s \<Rightarrow> Inr s
                   | VNil \<Rightarrow> Inr []
                   | VBool b \<Rightarrow> Inr (if b then ''true'' else ''false'')
                   | _ \<Rightarrow> unable),
      ToIntE = (\<lambda>v. case v of
                  VInt n \<Rightarrow> Inr n
                | VString s \<Rightarrow>
                    (case decimal 0 s of
                       Some n \<Rightarrow> if s = [] then unable else Inr (of_nat n)
                     | None \<Rightarrow> unable)
                | _ \<Rightarrow> unable),
      ToInt32E = (\<lambda>v. case v of VInt32 n \<Rightarrow> Inr n | _ \<Rightarrow> unable),
      ToInt64E = (\<lambda>v. case v of VInt64 n \<Rightarrow> Inr n | _ \<Rightarrow> unable),
      ToUintE = (\<lambda>v. case v of VUint n \<Rightarrow> Inr n | _ \<Rightarrow> unable),
      ToUint32E = (\<lambda>v. case v of VUint32 n \<Rightarrow> Inr n | _ \<Rightarrow> unable),
      ToUint64E = (\<lambda>v. case v of VUint64 n \<Rightarrow> Inr n | _ \<Rightarrow> unable),
      ToFloat64E = (\<lambda>v. case v of VFloat64 x \<Rightarrow> Inr x | _ \<Rightarrow> unable),
      ToFloat32E = (\<lambda>v. case v of VFloat32 x \<Rightarrow> Inr x | _ \<Rightarrow> unable),
      jsonStringToObject = (\<lambda>s. [])\<rparr>"

text \<open>
  The document \<^verbatim>\<open>{"server": {"port": "8080"}}\<close>; a document with an explicit null and an
  interface-keyed mapping; and an instance holding a given tree.
\<close>

definition server_doc :: dynval where
  "server_doc = VMapS [(''server'', VMapS [(''port'', VString ''8080'')])]"

definition mixed_doc :: dynval where
  "mixed_doc =
     VMapS [(''a'', VMapS [(''b'', VNil)]),
            (''flags'', VMapI [(VBool True, VString ''x'')]),
            (''n'', VInt 5)]"

definition config_of :: "dynval \<Rightarrow> FrameworkConfig" where
  "config_of tree = example_config\<lparr>unmarshedData := tree\<rparr>"

text \<open>The loader after its first \<^verbatim>\<open>Load("app.yaml")\<close> at time 0.\<close>

definition loaded_state :: loader_state where
  "loaded_state =
     \<lparr>store = [0 \<mapsto> example_config], next_ref = 1,
      configMap = [''yaml.file.app.yaml'' \<mapsto> 0],
      watchers = [(''file'', ''app.yaml'', ''yaml.file.app.yaml'')], stdout = []\<rparr>"

text \<open>
  The loader after a second \<^verbatim>\<open>Load("app.yaml")\<close>, which had found the key missing before
  the first one stored its instance, has stored its own and registered its callback.
\<close>

definition overwritten_state :: loader_state where
  "overwritten_state =
     \<lparr>store = [0 \<mapsto> example_config, 1 \<mapsto> example_config], next_ref = 2,
      configMap = [''yaml.file.app.yaml'' \<mapsto> 1],
      watchers = [(''file'', ''app.yaml'', ''yaml.file.app.yaml''),
                  (''file'', ''app.yaml'', ''yaml.file.app.yaml'')],
      stdout = []\<rparr>"

text \<open>
  The seven characters of the JSON object with the one member \<^verbatim>\<open>a\<close> of value 1, as a
  document that is a single string has them at its root; and the coercion library reading
  an object from this string, with the number as the 64-bit float 1.
\<close>

definition json_doc :: string where
  "json_doc = [CHR ''{'', CHR 0x22, CHR ''a'', CHR 0x22, CHR '':'', CHR ''1'', CHR ''}'']"

definition cast_json :: castlib where
  "cast_json =
     cast_min\<lparr>jsonStringToObject :=
       (\<lambda>s. if s = json_doc then [(''a'', VFloat64 0x3FF0000000000000)] else [])\<rparr>"

section \<open>Properties\<close>

subsection \<open>Auxiliary facts\<close>

lemma parseKey_nonempty: "parseKey key \<noteq> []"
  by (induction key) (auto split: list.splits)

lemma map_of_assign: "map_of (assign k v m) = (map_of m)(k \<mapsto> v)"
  by (induction m) auto

lemma map_upd_add: "m(k \<mapsto> v) ++ n = m ++ ([k \<mapsto> v] ++ n)"
  by (rule ext) (simp add: map_add_def split: option.splits)

lemma map_of_foldl_assign:
  "map_of (foldl (\<lambda>m (k, val). assign (f k) val m) acc kvs)
     = map_of acc ++ map_of (rev (map (\<lambda>(k, v). (f k, v)) kvs))"
proof (induction kvs arbitrary: acc)
  case Nil
  show ?case by simp
next
  case (Cons kv kvs)
  obtain k v where kv: "kv = (k, v)" by (cases kv)
  let ?F = "\<lambda>m (k, val). assign (f k) val m"
  let ?g = "\<lambda>(k, v). (f k, v)"
  have "map_of (foldl ?F acc (kv # kvs)) = map_of (foldl ?F (assign (f k) v acc) kvs)"
    by (simp add: kv)
  also have "\<dots> = map_of (assign (f k) v acc) ++ map_of (rev (map ?g kvs))"
    by (rule Cons.IH)
  also have "\<dots> = (map_of acc)(f k \<mapsto> v) ++ map_of (rev (map ?g kvs))"
    by (simp only: map_of_assign)
  also have "\<dots> = map_of acc ++ ([f k \<mapsto> v] ++ map_of (rev (map ?g kvs)))"
    by (rule map_upd_add)
  also have "[f k \<mapsto> v] ++ map_of (rev (map ?g kvs)) = map_of (rev (map ?g (kv # kvs)))"
    by (simp add: kv)
  finally show ?case .
qed

lemma map_of_ToStringMap_VMapI:
  "map_of (ToStringMap C (VMapI kvs)) = map_of (rev (map (\<lambda>(k, v). (ToString C k, v)) kvs))"
  using map_of_foldl_assign [of "ToString C" "[]" kvs] by simp

lemma search_spec_lookup: "search C m ks = spec_lookup C (VMapS m) ks"
proof (induction ks arbitrary: m)
  case Nil
  show ?case by simp
next
  case (Cons k ks)
  show ?case
  proof (cases "map_of m k")
    case None
    then show ?thesis by simp
  next
    case (Some nxt)
    show ?thesis
    proof (cases ks)
      case Nil
      with Some show ?thesis by simp
    next
      case (Cons k' ks')
      then have ne: "ks \<noteq> []" by simp
      show ?thesis
      proof (cases nxt)
        case (VMapS m')
        with Some ne Cons.IH [of m'] show ?thesis by simp
      next
        case (VMapI kvs)
        have "search C (ToStringMap C (VMapI kvs)) ks = spec_lookup C (VMapI kvs) ks"
          using Cons.IH [of "ToStringMap C (VMapI kvs)"] Cons
          by (simp add: map_of_ToStringMap_VMapI del: ToStringMap.simps)
        with Some ne VMapI show ?thesis by (simp del: ToStringMap.simps)
      qed (use Some ne Cons in simp_all)
    qed
  qed
qed


subsection \<open>Instance-level load and reload\<close>

text \<open>
  C1 (the code departs from the claim). The claim: when the provider read succeeds and
  the decoder fails, \<^verbatim>\<open>Load\<close> returns the wrapped parse error and the stored raw bytes and
  tree stay as they were. The code assigns both fields before it decodes (lines 325-326).
  On the example instance, which holds \<^verbatim>\<open>k: v\<close> and its tree, a \<^verbatim>\<open>Load\<close> at time 2 reads the
  undecodable bytes \<^verbatim>\<open>{\<close>, returns the parse error and leaves the instance holding \<^verbatim>\<open>{\<close>
  and an empty mapping.
\<close>

theorem Load_parse_failure_overwrites:
  "FrameworkConfig_Load 2 example_config =
     Done (Some (ErrMsg ''app/config: failed to parse app.yaml: syntax error''),
           example_config\<lparr>rawData := ''{'', unmarshedData := VMapS []\<rparr>)
   \<and> rawData example_config = ''k: v''
   \<and> unmarshedData example_config = VMapS [(''k'', VString ''v'')]"
  by (simp add: FrameworkConfig_Load_def example_config_def example_provider_def
      example_codec_def example_Unmarshal_def)

text \<open>
  C3. Instance-level \<^verbatim>\<open>Reload\<close> returns no value. When the provider read fails, or the
  read succeeds and the decoder fails, the instance is returned unchanged and one line
  naming the failure is printed; when both succeed, the raw bytes and the tree are
  replaced together by the bytes read and the tree decoded from them, and nothing is
  printed. An instance without a provider is returned unchanged.
\<close>

theorem Reload_keeps_or_replaces:
  "(p c = None \<longrightarrow> FrameworkConfig_Reload t c = Done (c, []))
   \<and> (\<forall>prov err. p c = Some prov \<and> prov_Read prov t (path c) = Inl err \<longrightarrow>
        FrameworkConfig_Reload t c =
          Done (c, [''app/config: failed to reload '' @ path c @ '': '' @ err]))
   \<and> (\<forall>prov data d err out.
        p c = Some prov \<and> prov_Read prov t (path c) = Inr data \<and> decoder c = Some d
        \<and> codec_Unmarshal d data (VMapS []) = (Some err, out) \<longrightarrow>
        FrameworkConfig_Reload t c =
          Done (c, [''app/config: failed to parse '' @ path c @ '': '' @ err]))
   \<and> (\<forall>prov data d tree.
        p c = Some prov \<and> prov_Read prov t (path c) = Inr data \<and> decoder c = Some d
        \<and> codec_Unmarshal d data (VMapS []) = (None, tree) \<longrightarrow>
        FrameworkConfig_Reload t c = Done (c\<lparr>rawData := data, unmarshedData := tree\<rparr>, []))"
  by (auto simp add: FrameworkConfig_Reload_def)

theorem Reload_keeps_or_replaces_witness:
  "FrameworkConfig_Reload 1 example_config =
     Done (example_config\<lparr>rawData := ''k: w'', unmarshedData := VMapS [(''k'', VString ''w'')]\<rparr>,
           [])
   \<and> FrameworkConfig_Reload 2 example_config =
     Done (example_config, [''app/config: failed to parse app.yaml: syntax error''])
   \<and> FrameworkConfig_Reload 1 (example_config\<lparr>path := ''gone.yaml''\<rparr>) =
     Done (example_config\<lparr>path := ''gone.yaml''\<rparr>,
           [''app/config: failed to reload gone.yaml: no such file''])"
proof -
  let ?c = "example_config"
  let ?gone = "example_config\<lparr>path := ''gone.yaml''\<rparr>"
  have ok: "p ?c = Some example_provider
      \<and> prov_Read example_provider 1 (path ?c) = Inr ''k: w''
      \<and> decoder ?c = Some example_codec
      \<and> codec_Unmarshal example_codec ''k: w'' (VMapS []) = (None, VMapS [(''k'', VString ''w'')])"
    by (simp add: example_config_def example_provider_def example_codec_def example_Unmarshal_def)
  have bad: "p ?c = Some example_provider
      \<and> prov_Read example_provider 2 (path ?c) = Inr ''{''
      \<and> decoder ?c = Some example_codec
      \<and> codec_Unmarshal example_codec ''{'' (VMapS []) = (Some ''syntax error'', VMapS [])"
    by (simp add: example_config_def example_provider_def example_codec_def example_Unmarshal_def)
  have gone: "p ?gone = Some example_provider
      \<and> prov_Read example_provider 1 (path ?gone) = Inl ''no such file''"
    by (simp add: example_config_def example_provider_def)
  have pth: "path ?c = ''app.yaml''" "path ?gone = ''gone.yaml''"
    by (simp_all add: example_config_def)
  from Reload_keeps_or_replaces [of ?c 1] ok
  have 1: "FrameworkConfig_Reload 1 ?c =
      Done (?c\<lparr>rawData := ''k: w'', unmarshedData := VMapS [(''k'', VString ''w'')]\<rparr>, [])"
    by blast
  from Reload_keeps_or_replaces [of ?c 2] bad
  have "FrameworkConfig_Reload 2 ?c =
      Done (?c, [''app/config: failed to parse '' @ path ?c @ '': '' @ ''syntax error''])"
    by blast
  then have 2: "FrameworkConfig_Reload 2 ?c =
      Done (?c, [''app/config: failed to parse app.yaml: syntax error''])"
    by (simp add: pth)
  from Reload_keeps_or_replaces [of ?gone 1] gone
  have "FrameworkConfig_Reload 1 ?gone =
      Done (?gone, [''app/config: failed to reload '' @ path ?gone @ '': '' @ ''no such file''])"
    by blast
  then have 3: "FrameworkConfig_Reload 1 ?gone =
      Done (?gone, [''app/config: failed to reload gone.yaml: no such file''])"
    by (simp add: pth)
  from 1 2 3 show ?thesis by blast
qed

subsection \<open>Lookups\<close>

lemma find_cfg_spec:
  "find_cfg C c key = spec_lookup C (VMapS (ToStringMap C (unmarshedData c))) (parseKey key)"
  by (simp add: find_cfg_def locateSubkey_def search_spec_lookup)

lemma spec_lookup_root:
  assumes "\<forall>s. t \<noteq> VString s"
  shows "spec_lookup C (VMapS (ToStringMap C t)) ks = spec_lookup C t ks"
proof (cases ks)
  case Nil
  then show ?thesis by simp
next
  case (Cons k rest)
  show ?thesis
  proof (cases t)
    case (VMapI kvs)
    then show ?thesis
      by (simp add: Cons map_of_ToStringMap_VMapI del: ToStringMap.simps)
  qed (use assms Cons in simp_all)
qed


lemma cast_min_identity: "cast_identity cast_min"
  by (simp add: cast_identity_def cast_min_def)



lemma GetInt_spec:
  "cast_identity C \<Longrightarrow> GetInt C c key d = spec_typed_get C c key (ToIntE C) d"
  by (simp add: GetInt_def findWithDefaultValue_def spec_typed_get_def ToInt_def cast_identity_def
      split: sum.splits)

lemma GetInt32_spec:
  "cast_identity C \<Longrightarrow> GetInt32 C c key d = spec_typed_get C c key (ToInt32E C) d"
  by (simp add: GetInt32_def findWithDefaultValue_def spec_typed_get_def ToInt32_def cast_identity_def
      split: sum.splits)

lemma GetInt64_spec:
  "cast_identity C \<Longrightarrow> GetInt64 C c key d = spec_typed_get C c key (ToInt64E C) d"
  by (simp add: GetInt64_def findWithDefaultValue_def spec_typed_get_def ToInt64_def cast_identity_def
      split: sum.splits)

lemma GetUint_spec:
  "cast_identity C \<Longrightarrow> GetUint C c key d = spec_typed_get C c key (ToUintE C) d"
  by (simp add: GetUint_def findWithDefaultValue_def spec_typed_get_def ToUint_def cast_identity_def
      split: sum.splits)

lemma GetUint32_spec:
  "cast_identity C \<Longrightarrow> GetUint32 C c key d = spec_typed_get C c key (ToUint32E C) d"
  by (simp add: GetUint32_def findWithDefaultValue_def spec_typed_get_def ToUint32_def cast_identity_def
      split: sum.splits)

lemma GetUint64_spec:
  "cast_identity C \<Longrightarrow> GetUint64 C c key d = spec_typed_get C c key (ToUint64E C) d"
  by (simp add: GetUint64_def findWithDefaultValue_def spec_typed_get_def ToUint64_def cast_identity_def
      split: sum.splits)

lemma GetFloat32_spec:
  "cast_identity C \<Longrightarrow> GetFloat32 C c key d = spec_typed_get C c key (ToFloat32E C) d"
  by (simp add: GetFloat32_def findWithDefaultValue_def spec_typed_get_def ToFloat32_def cast_identity_def
      split: sum.splits)

lemma GetFloat64_spec:
  "cast_identity C \<Longrightarrow> GetFloat64 C c key d = spec_typed_get C c key (ToFloat64E C) d"
  by (simp add: GetFloat64_def findWithDefaultValue_def spec_typed_get_def ToFloat64_def cast_identity_def
      split: sum.splits)

lemma GetBool_spec:
  "cast_identity C \<Longrightarrow> GetBool C c key d = spec_typed_get C c key (ToBoolE C) d"
  by (simp add: GetBool_def findWithDefaultValue_def spec_typed_get_def ToBool_def cast_identity_def
      split: sum.splits)

lemma GetString_spec:
  "cast_identity C \<Longrightarrow> GetString C c key d = spec_typed_get C c key (ToStringE C) d"
  by (simp add: GetString_def find_cfg_def spec_typed_get_def cast_identity_def
      split: sum.splits dynval.splits)

lemma server_doc_lookups:
  assumes "unmarshedData c = server_doc"
  shows "find_cfg C c ''server.port'' = Inr (VString ''8080'')"
    and "find_cfg C c ''server.missing'' = Inl ErrConfigNotExist"
  using assms by (simp_all add: find_cfg_def locateSubkey_def server_doc_def)

text \<open>
  C7. Given that the coercion library converts a value of the requested type to itself,
  each typed getter returns the found value coerced to its type when the key resolves
  and the coercion succeeds, and the caller's default when the key does not resolve or
  the coercion fails. On the document \<^verbatim>\<open>{"server": {"port": "8080"}}\<close>, with a library that
  reads the string \<^verbatim>\<open>8080\<close> as the integer, \<^verbatim>\<open>GetInt("server.port", 0)\<close> is 8080,
  \<^verbatim>\<open>GetString("server.port", "")\<close> is \<^verbatim>\<open>8080\<close> and \<^verbatim>\<open>GetInt("server.missing", 99)\<close> is 99.
\<close>

theorem typed_getters_coerce_or_default:
  assumes "cast_identity C"
  shows "GetString C c key ds = spec_typed_get C c key (ToStringE C) ds
   \<and> GetInt C c key di = spec_typed_get C c key (ToIntE C) di
   \<and> GetInt32 C c key di32 = spec_typed_get C c key (ToInt32E C) di32
   \<and> GetInt64 C c key di64 = spec_typed_get C c key (ToInt64E C) di64
   \<and> GetUint C c key du = spec_typed_get C c key (ToUintE C) du
   \<and> GetUint32 C c key du32 = spec_typed_get C c key (ToUint32E C) du32
   \<and> GetUint64 C c key du64 = spec_typed_get C c key (ToUint64E C) du64
   \<and> GetFloat32 C c key df32 = spec_typed_get C c key (ToFloat32E C) df32
   \<and> GetFloat64 C c key df64 = spec_typed_get C c key (ToFloat64E C) df64
   \<and> GetBool C c key db = spec_typed_get C c key (ToBoolE C) db
   \<and> (unmarshedData c = server_doc \<and> ToIntE C (VString ''8080'') = Inr 8080 \<longrightarrow>
        GetInt C c ''server.port'' 0 = 8080
        \<and> GetString C c ''server.port'' [] = ''8080''
        \<and> GetInt C c ''server.missing'' 99 = 99)"
proof -
  have ex: "GetInt C c ''server.port'' 0 = 8080
      \<and> GetString C c ''server.port'' [] = ''8080''
      \<and> GetInt C c ''server.missing'' 99 = 99"
    if "unmarshedData c = server_doc" "ToIntE C (VString ''8080'') = Inr 8080"
  proof -
    have s: "ToStringE C (VString ''8080'') = Inr ''8080''"
      using assms by (simp add: cast_identity_def)
    show ?thesis
      using that s
      by (simp add: GetInt_spec [OF assms] GetString_spec [OF assms] spec_typed_get_def
          server_doc_lookups)
  qed
  show ?thesis
    using ex
    by (simp add: GetString_spec [OF assms] GetInt_spec [OF assms] GetInt32_spec [OF assms]
        GetInt64_spec [OF assms] GetUint_spec [OF assms] GetUint32_spec [OF assms]
        GetUint64_spec [OF assms] GetFloat32_spec [OF assms] GetFloat64_spec [OF assms]
        GetBool_spec [OF assms])
qed

theorem typed_getters_coerce_or_default_witness:
  "cast_identity cast_min
   \<and> GetInt cast_min (config_of server_doc) ''server.port'' 0 = 8080
   \<and> GetString cast_min (config_of server_doc) ''server.port'' [] = ''8080''
   \<and> GetInt cast_min (config_of server_doc) ''server.missing'' 99 = 99
   \<and> GetBool cast_min (config_of server_doc) ''server.port'' True = True
   \<and> GetInt cast_min (config_of server_doc) ''server'' 7 = 7"
proof -
  let ?c = "config_of server_doc"
  have tree: "unmarshedData ?c = server_doc"
    by (simp add: config_of_def)
  have port: "ToIntE cast_min (VString ''8080'') = Inr 8080"
    by (simp add: cast_min_def)
  note getters = typed_getters_coerce_or_default [OF cast_min_identity, of ?c]
  from getters [of "''server.port''"] tree port
  have ex: "GetInt cast_min ?c ''server.port'' 0 = 8080
      \<and> GetString cast_min ?c ''server.port'' [] = ''8080''
      \<and> GetInt cast_min ?c ''server.missing'' 99 = 99"
    by blast
  from getters [of "''server.port''" _ _ _ _ _ _ _ _ _ True]
  have "GetBool cast_min ?c ''server.port'' True
      = spec_typed_get cast_min ?c ''server.port'' (ToBoolE cast_min) True"
    by blast
  then have b: "GetBool cast_min ?c ''server.port'' True = True"
    by (simp add: spec_typed_get_def server_doc_lookups [OF tree] cast_min_def unable_def)
  from getters [of "''server''" _ 7]
  have "GetInt cast_min ?c ''server'' 7 = spec_typed_get cast_min ?c ''server'' (ToIntE cast_min) 7"
    by blast
  then have i: "GetInt cast_min ?c ''server'' 7 = 7"
    by (simp add: spec_typed_get_def find_cfg_def locateSubkey_def config_of_def server_doc_def
        cast_min_def unable_def)
  from cast_min_identity ex b i show ?thesis by blast
qed

text \<open>
  C8 (as the code has it). The claim, for every loaded tree, fails on a tree that is a
  single string at its root: line 266 passes the root through \<^verbatim>\<open>cast.ToStringMap\<close>, which
  reads a string as a JSON object, so that \<^verbatim>\<open>IsSet("a")\<close> holds and \<^verbatim>\<open>Get("a", nil)\<close> returns
  the number on the string \<^verbatim>\<open>{"a":1}\<close>, where the navigation of the specification fails at
  the root, which is not a mapping.
\<close>

theorem IsSet_root_string_counterexample:
  "IsSet cast_json (config_of (VString json_doc)) ''a''
   \<and> Get cast_json (config_of (VString json_doc)) ''a'' VNil = VFloat64 0x3FF0000000000000
   \<and> spec_lookup cast_json (VString json_doc) (parseKey ''a'') = Inl ErrConfigNotExist"
  by (simp add: IsSet_def Get_def find_cfg_def locateSubkey_def config_of_def cast_json_def)

text \<open>
  C8, amended. For every key and every tree that is not a single string at its root,
  \<^verbatim>\<open>IsSet(key)\<close> holds iff the navigation of the tree resolves the key to a value, whatever
  that value is, so a key chain that ends in an explicit null is set, and
  \<^verbatim>\<open>Get(key, default)\<close> returns exactly the value the navigation finds. For every tree, a
  string at the root included, the same holds of the navigation from the mapping that
  \<^verbatim>\<open>cast.ToStringMap\<close> makes of the root, and \<^verbatim>\<open>Get(key, default)\<close> returns the default when
  \<^verbatim>\<open>IsSet(key)\<close> is false.
\<close>

theorem IsSet_iff_resolves_and_Get:
  "((\<forall>s. unmarshedData c \<noteq> VString s) \<longrightarrow>
      IsSet C c key = (\<exists>v. spec_lookup C (unmarshedData c) (parseKey key) = Inr v)
      \<and> (\<forall>v. spec_lookup C (unmarshedData c) (parseKey key) = Inr v \<longrightarrow> Get C c key d = v)
      \<and> (spec_lookup C (unmarshedData c) (parseKey key) = Inr VNil \<longrightarrow> IsSet C c key))
   \<and> IsSet C c key =
       (\<exists>v. spec_lookup C (VMapS (ToStringMap C (unmarshedData c))) (parseKey key) = Inr v)
   \<and> (\<forall>v. spec_lookup C (VMapS (ToStringMap C (unmarshedData c))) (parseKey key) = Inr v \<longrightarrow>
        IsSet C c key \<and> Get C c key d = v)
   \<and> (\<not> IsSet C c key \<longrightarrow> Get C c key d = d)"
proof -
  let ?nav = "spec_lookup C (VMapS (ToStringMap C (unmarshedData c))) (parseKey key)"
  have loc: "locateSubkey C c (parseKey key) = ?nav"
    by (simp add: locateSubkey_def search_spec_lookup)
  have isset: "IsSet C c key = (\<exists>v. ?nav = Inr v)"
    by (cases ?nav) (simp_all add: IsSet_def loc)
  have get_found: "Get C c key d = v" if "?nav = Inr v" for v
    using that by (simp add: Get_def find_cfg_spec)
  have get_default: "Get C c key d = d" if "\<not> IsSet C c key"
    using that isset by (cases ?nav) (simp_all add: Get_def find_cfg_spec)
  have tree: "IsSet C c key = (\<exists>v. spec_lookup C (unmarshedData c) (parseKey key) = Inr v)
      \<and> (\<forall>v. spec_lookup C (unmarshedData c) (parseKey key) = Inr v \<longrightarrow> Get C c key d = v)
      \<and> (spec_lookup C (unmarshedData c) (parseKey key) = Inr VNil \<longrightarrow> IsSet C c key)"
    if "\<forall>s. unmarshedData c \<noteq> VString s"
  proof -
    have "?nav = spec_lookup C (unmarshedData c) (parseKey key)"
      by (rule spec_lookup_root [OF that])
    with isset get_found show ?thesis by metis
  qed
  from isset get_found get_default tree show ?thesis by blast
qed

theorem IsSet_iff_resolves_and_Get_witness:
  "IsSet cast_min (config_of mixed_doc) ''a.b''
   \<and> Get cast_min (config_of mixed_doc) ''a.b'' (VString ''dflt'') = VNil
   \<and> \<not> IsSet cast_min (config_of mixed_doc) ''n.c''
   \<and> Get cast_min (config_of mixed_doc) ''n.c'' (VString ''dflt'') = VString ''dflt''
   \<and> IsSet cast_json (config_of (VString json_doc)) ''a''
   \<and> \<not> IsSet cast_json (config_of (VString json_doc)) ''b''
   \<and> Get cast_json (config_of (VString json_doc)) ''b'' (VString ''dflt'') = VString ''dflt''"
proof -
  let ?c = "config_of mixed_doc"
  let ?j = "config_of (VString json_doc)"
  have tree: "\<forall>s. unmarshedData ?c \<noteq> VString s"
    by (simp add: config_of_def mixed_doc_def)
  have ab: "spec_lookup cast_min (unmarshedData ?c) (parseKey ''a.b'') = Inr VNil"
    by (simp add: config_of_def mixed_doc_def)
  have nc: "\<not> (\<exists>v. spec_lookup cast_min (unmarshedData ?c) (parseKey ''n.c'') = Inr v)"
    by (simp add: config_of_def mixed_doc_def)
  have ja: "spec_lookup cast_json (VMapS (ToStringMap cast_json (unmarshedData ?j))) (parseKey ''a'')
      = Inr (VFloat64 0x3FF0000000000000)"
    by (simp add: config_of_def cast_json_def)
  have jb: "\<not> (\<exists>v. spec_lookup cast_json (VMapS (ToStringMap cast_json (unmarshedData ?j)))
      (parseKey ''b'') = Inr v)"
    by (simp add: config_of_def cast_json_def)
  from IsSet_iff_resolves_and_Get [of ?c cast_min "''a.b''" "VString ''dflt''"] tree ab
  have 1: "IsSet cast_min ?c ''a.b'' \<and> Get cast_min ?c ''a.b'' (VString ''dflt'') = VNil"
    by blast
  from IsSet_iff_resolves_and_Get [of ?c cast_min "''n.c''" "VString ''dflt''"] tree nc
  have 2: "\<not> IsSet cast_min ?c ''n.c''
      \<and> Get cast_min ?c ''n.c'' (VString ''dflt'') = VString ''dflt''"
    by blast
  from IsSet_iff_resolves_and_Get [of ?j cast_json "''a''" "VString ''dflt''"] ja
  have 3: "IsSet cast_json ?j ''a''"
    by blast
  from IsSet_iff_resolves_and_Get [of ?j cast_json "''b''" "VString ''dflt''"] jb
  have 4: "\<not> IsSet cast_json ?j ''b''
      \<and> Get cast_json ?j ''b'' (VString ''dflt'') = VString ''dflt''"
    by blast
  from 1 2 3 4 show ?thesis by blast
qed

text \<open>
  C10. On an instance whose load never ran or never succeeded, so that its tree is nil or
  an empty mapping, every lookup fails with \<^verbatim>\<open>ErrConfigNotExist\<close>: \<^verbatim>\<open>Get\<close> and \<^verbatim>\<open>GetString\<close> return
  the default and \<^verbatim>\<open>IsSet\<close> is false, and, given that the coercion library converts a value
  of the requested type to itself, the other typed getters return the default too. The
  lookups are functions of the model with no panic among their outcomes: the source
  indexes the segments only after the length check of line 270 and reads maps that may be
  empty.
\<close>

theorem lookups_on_unloaded_instance:
  assumes "unmarshedData c = VNil \<or> unmarshedData c = VMapS []"
  shows "find_cfg C c key = Inl ErrConfigNotExist
   \<and> Get C c key dv = dv
   \<and> \<not> IsSet C c key
   \<and> GetString C c key ds = ds
   \<and> (cast_identity C \<longrightarrow>
        GetInt C c key di = di \<and> GetInt32 C c key di32 = di32 \<and> GetInt64 C c key di64 = di64
        \<and> GetUint C c key du = du \<and> GetUint32 C c key du32 = du32
        \<and> GetUint64 C c key du64 = du64 \<and> GetFloat32 C c key df32 = df32
        \<and> GetFloat64 C c key df64 = df64 \<and> GetBool C c key db = db)"
proof -
  have f: "find_cfg C c key = Inl ErrConfigNotExist"
    using assms parseKey_nonempty [of key]
    by (cases "parseKey key") (auto simp add: find_cfg_def locateSubkey_def)
  have loc: "locateSubkey C c (parseKey key) = Inl ErrConfigNotExist"
    using f by (simp add: find_cfg_def)
  have "Get C c key dv = dv" by (simp add: Get_def f)
  moreover have "\<not> IsSet C c key" by (simp add: IsSet_def loc)
  moreover have "GetString C c key ds = ds" by (simp add: GetString_def loc)
  moreover have "GetInt C c key di = di \<and> GetInt32 C c key di32 = di32
        \<and> GetInt64 C c key di64 = di64
        \<and> GetUint C c key du = du \<and> GetUint32 C c key du32 = du32
        \<and> GetUint64 C c key du64 = du64 \<and> GetFloat32 C c key df32 = df32
        \<and> GetFloat64 C c key df64 = df64 \<and> GetBool C c key db = db" if "cast_identity C"
    by (simp add: GetInt_spec [OF that] GetInt32_spec [OF that] GetInt64_spec [OF that]
        GetUint_spec [OF that] GetUint32_spec [OF that] GetUint64_spec [OF that]
        GetFloat32_spec [OF that] GetFloat64_spec [OF that] GetBool_spec [OF that]
        spec_typed_get_def f)
  ultimately show ?thesis using f by blast
qed

theorem lookups_on_unloaded_instance_witness:
  "unmarshedData (newFullConfig example_registry ''app.yaml'') = VNil
   \<and> find_cfg cast_min (newFullConfig example_registry ''app.yaml'') ''server.port''
       = Inl ErrConfigNotExist
   \<and> Get cast_min (newFullConfig example_registry ''app.yaml'') ''server.port'' (VInt 1) = VInt 1
   \<and> \<not> IsSet cast_min (newFullConfig example_registry ''app.yaml'') ''server.port''
   \<and> GetString cast_min (newFullConfig example_registry ''app.yaml'') ''server.port'' ''none''
       = ''none''
   \<and> GetInt cast_min (newFullConfig example_registry ''app.yaml'') ''server.port'' 99 = 99
   \<and> GetBool cast_min (config_of (VMapS [])) [] True = True"
proof -
  let ?new = "newFullConfig example_registry ''app.yaml''"
  have nil: "unmarshedData ?new = VNil"
    by (simp add: newFullConfig_def)
  have empty: "unmarshedData (config_of (VMapS [])) = VMapS []"
    by (simp add: config_of_def)
  from lookups_on_unloaded_instance [of ?new cast_min "''server.port''" "VInt 1" "''none''" 99]
    nil cast_min_identity
  have 1: "find_cfg cast_min ?new ''server.port'' = Inl ErrConfigNotExist
      \<and> Get cast_min ?new ''server.port'' (VInt 1) = VInt 1
      \<and> \<not> IsSet cast_min ?new ''server.port''
      \<and> GetString cast_min ?new ''server.port'' ''none'' = ''none''
      \<and> GetInt cast_min ?new ''server.port'' 99 = 99"
    by blast
  from lookups_on_unloaded_instance
    [of "config_of (VMapS [])" cast_min "[]" _ _ _ _ _ _ _ _ _ _ True]
    empty cast_min_identity
  have 2: "GetBool cast_min (config_of (VMapS [])) [] True = True"
    by blast
  from nil 1 2 show ?thesis by blast
qed

subsection \<open>The loader\<close>

lemma Load_fields:
  "FrameworkConfig_Load t c = Done (e, c') \<Longrightarrow>
   p c' = p c \<and> decoder c' = decoder c \<and> path c' = path c"
  by (auto simp add: FrameworkConfig_Load_def Let_def split: option.splits sum.splits prod.splits)

lemma Reload_fields:
  "FrameworkConfig_Reload t c = Done (c', out) \<Longrightarrow>
   p c' = p c \<and> decoder c' = decoder c \<and> path c' = path c"
  by (auto simp add: FrameworkConfig_Reload_def split: option.splits sum.splits prod.splits)

lemma Reload_returns:
  "decoder c \<noteq> None \<Longrightarrow> \<exists>c' out. FrameworkConfig_Reload t c = Done (c', out)"
  by (auto simp add: FrameworkConfig_Reload_def split: option.splits sum.splits prod.splits)

lemma Load_error_text:
  assumes "FrameworkConfig_Load t c = Done (Some err, c')" "p c \<noteq> None"
  shows "\<exists>cause. err = ErrMsg (''app/config: failed to load '' @ path c @ '': '' @ cause)
            \<or> err = ErrMsg (''app/config: failed to parse '' @ path c @ '': '' @ cause)"
  using assms
  by (auto simp add: FrameworkConfig_Load_def Let_def split: option.splits sum.splits prod.splits)

lemma loader_Load_cases:
  assumes "FullConfigLoader_Load R t s pth opts = Done (r, s')"
  shows "s' = s \<or>
    (\<exists>d prov yc'. decoder (apply_opts (newFullConfig R pth) opts) = Some d
       \<and> p (apply_opts (newFullConfig R pth) opts) = Some prov
       \<and> configMap s (cache_key d prov pth) = None
       \<and> FrameworkConfig_Load t (apply_opts (newFullConfig R pth) opts) = Done (None, yc')
       \<and> r = Inr (next_ref s)
       \<and> s' = s\<lparr>store := (store s)(next_ref s \<mapsto> yc'),
                next_ref := Suc (next_ref s),
                configMap := (configMap s)(cache_key d prov pth \<mapsto> next_ref s),
                watchers := watchers s @ [(prov_Name prov, pth, cache_key d prov pth)]\<rparr>)"
  using assms
  by (auto simp add: FullConfigLoader_Load_def Let_def
      split: option.splits exec.splits prod.splits)

lemma Load_phases:
  "FullConfigLoader_Load R t s pth opts =
     (case Load_lookup R s pth opts of
        Returned r \<Rightarrow> Done (r, s)
      | Missed yc prov key \<Rightarrow>
          (case Load_insert t s yc key of
             Panic \<Rightarrow> Panic
           | Done (Inl err, s') \<Rightarrow> Done (Inl err, s')
           | Done (Inr a, s') \<Rightarrow> Done (Inr a, Load_watch s' prov pth key)))"
  by (simp add: FullConfigLoader_Load_def Load_lookup_def Load_insert_def Load_watch_def Let_def
      split: option.splits exec.splits prod.splits)

lemma Load_lookup_Missed:
  assumes "Load_lookup R sl pth opts = Missed yc prov key"
  shows "yc = apply_opts (newFullConfig R pth) opts \<and> p yc = Some prov
    \<and> (\<exists>d. decoder yc = Some d \<and> key = cache_key d prov pth)"
  using assms by (auto simp add: Load_lookup_def Let_def split: option.splits)

lemma Load_lookup_hit:
  assumes "decoder (apply_opts (newFullConfig R pth) opts) = Some d"
    and "p (apply_opts (newFullConfig R pth) opts) = Some prov"
    and "configMap s (cache_key d prov pth) = Some a"
  shows "Load_lookup R s pth opts = Returned (Inr a)"
  using assms by (simp add: Load_lookup_def Let_def)

lemma Load_lookup_Returned:
  assumes "Load_lookup R s pth opts = Returned (Inr a)"
    and "decoder (apply_opts (newFullConfig R pth) opts) = Some d"
    and "p (apply_opts (newFullConfig R pth) opts) = Some prov"
  shows "configMap s (cache_key d prov pth) = Some a"
  using assms by (auto simp add: Load_lookup_def Let_def split: option.splits)

lemma Load_insert_cases:
  assumes "Load_insert t s yc key = Done (r, s')"
  shows "s' = s \<or>
    (\<exists>yc'. FrameworkConfig_Load t yc = Done (None, yc') \<and> r = Inr (next_ref s)
       \<and> s' = s\<lparr>store := (store s)(next_ref s \<mapsto> yc'),
                next_ref := Suc (next_ref s),
                configMap := (configMap s)(key \<mapsto> next_ref s)\<rparr>)"
  using assms
  by (auto simp add: Load_insert_def split: option.splits exec.splits prod.splits)

lemma Load_insert_result_cached:
  "Load_insert t s yc key = Done (Inr a, s') \<Longrightarrow> configMap s' key = Some a"
  by (auto simp add: Load_insert_def split: option.splits exec.splits prod.splits)

lemma loader_Load_error_state:
  "FullConfigLoader_Load R t s pth opts = Done (Inl e, s') \<Longrightarrow> s' = s"
  by (auto simp add: FullConfigLoader_Load_def Let_def
      split: option.splits exec.splits prod.splits)

lemma loader_Reload_cases:
  assumes "FullConfigLoader_Reload R t s pth opts = Done (e, s')"
  shows "s' = s \<or>
    (\<exists>a config config' out. store s a = Some config
       \<and> FrameworkConfig_Reload t config = Done (config', out)
       \<and> s' = s\<lparr>store := (store s)(a \<mapsto> config'), stdout := stdout s @ out\<rparr>)"
  using assms
  by (auto simp add: FullConfigLoader_Reload_def Let_def
      split: option.splits exec.splits prod.splits)

lemma notify_fold:
  "store (foldl (\<lambda>s' (n, pth, key). if n = pname then onChange pth key changed s' else s') s ws)
     = store s
   \<and> next_ref (foldl (\<lambda>s' (n, pth, key). if n = pname then onChange pth key changed s' else s') s ws)
     = next_ref s
   \<and> (\<forall>k a. configMap
        (foldl (\<lambda>s' (n, pth, key). if n = pname then onChange pth key changed s' else s') s ws) k
          = Some a \<longrightarrow> configMap s k = Some a)"
proof (induction ws arbitrary: s)
  case Nil
  show ?case by simp
next
  case (Cons w ws)
  obtain n pth key where w: "w = (n, pth, key)" by (cases w)
  let ?s1 = "if n = pname then onChange pth key changed s else s"
  have step: "store ?s1 = store s \<and> next_ref ?s1 = next_ref s
      \<and> (\<forall>k a. configMap ?s1 k = Some a \<longrightarrow> configMap s k = Some a)"
    by (auto simp add: onChange_def split: if_splits)
  from Cons.IH [of ?s1] step show ?case
    by (simp add: w)
qed

lemma notify_keeps:
  "store (notify pname changed s) = store s"
  "next_ref (notify pname changed s) = next_ref s"
  "configMap (notify pname changed s) k = Some a \<Longrightarrow> configMap s k = Some a"
  using notify_fold [of pname changed s "watchers s"] by (auto simp add: notify_def)

lemma cached_ok_store_update:
  assumes "cached_ok s" "store s a = Some c" "p c' = p c" "decoder c' = decoder c"
  shows "cached_ok (s\<lparr>store := (store s)(a \<mapsto> c'), stdout := out\<rparr>)"
    and "cached_ok (s\<lparr>store := (store s)(a \<mapsto> c')\<rparr>)"
  using assms unfolding cached_ok_def by (auto; metis option.sel)+

lemma evolves_cached_ok: "evolves K s0 s \<Longrightarrow> cached_ok s0 \<Longrightarrow> cached_ok s"
proof (induction rule: evolves.induct)
  case start
  then show ?case by simp
next
  case (load s R t pth opts r s')
  then have ok: "cached_ok s" by simp
  from loader_Load_cases [OF load.hyps(2)] show ?case
  proof
    assume "s' = s" with ok show ?thesis by simp
  next
    assume "\<exists>d prov yc'. decoder (apply_opts (newFullConfig R pth) opts) = Some d
       \<and> p (apply_opts (newFullConfig R pth) opts) = Some prov
       \<and> configMap s (cache_key d prov pth) = None
       \<and> FrameworkConfig_Load t (apply_opts (newFullConfig R pth) opts) = Done (None, yc')
       \<and> r = Inr (next_ref s)
       \<and> s' = s\<lparr>store := (store s)(next_ref s \<mapsto> yc'),
                next_ref := Suc (next_ref s),
                configMap := (configMap s)(cache_key d prov pth \<mapsto> next_ref s),
                watchers := watchers s @ [(prov_Name prov, pth, cache_key d prov pth)]\<rparr>"
    then obtain d prov yc' where
      d: "decoder (apply_opts (newFullConfig R pth) opts) = Some d" and
      pr: "p (apply_opts (newFullConfig R pth) opts) = Some prov" and
      ld: "FrameworkConfig_Load t (apply_opts (newFullConfig R pth) opts) = Done (None, yc')" and
      s': "s' = s\<lparr>store := (store s)(next_ref s \<mapsto> yc'),
                next_ref := Suc (next_ref s),
                configMap := (configMap s)(cache_key d prov pth \<mapsto> next_ref s),
                watchers := watchers s @ [(prov_Name prov, pth, cache_key d prov pth)]\<rparr>"
      by blast
    from Load_fields [OF ld] d pr have yc': "p yc' \<noteq> None" "decoder yc' \<noteq> None" by simp_all
    from ok have fresh: "store s (next_ref s) = None"
      unfolding cached_ok_def by (metis less_irrefl option.exhaust)
    from ok yc' fresh show ?thesis
      unfolding cached_ok_def s' by (auto simp add: less_Suc_eq)
  qed
next
  case (load_insert s R sl pth opts yc prov key t r s')
  then have ok: "cached_ok s" by simp
  from Load_insert_cases [OF load_insert.hyps(4)] show ?case
  proof
    assume "s' = s" with ok show ?thesis by simp
  next
    assume "\<exists>yc'. FrameworkConfig_Load t yc = Done (None, yc') \<and> r = Inr (next_ref s)
       \<and> s' = s\<lparr>store := (store s)(next_ref s \<mapsto> yc'),
                next_ref := Suc (next_ref s),
                configMap := (configMap s)(key \<mapsto> next_ref s)\<rparr>"
    then obtain yc' where
      ld: "FrameworkConfig_Load t yc = Done (None, yc')" and
      s': "s' = s\<lparr>store := (store s)(next_ref s \<mapsto> yc'),
                next_ref := Suc (next_ref s),
                configMap := (configMap s)(key \<mapsto> next_ref s)\<rparr>"
      by blast
    from Load_lookup_Missed [OF load_insert.hyps(2)] Load_fields [OF ld]
    have yc': "p yc' \<noteq> None" "decoder yc' \<noteq> None" by auto
    from ok have fresh: "store s (next_ref s) = None"
      unfolding cached_ok_def by (metis less_irrefl option.exhaust)
    from ok yc' fresh show ?thesis
      unfolding cached_ok_def s' by (auto simp add: less_Suc_eq)
  qed
next
  case (load_watch s prov pth key)
  then have "cached_ok s" by simp
  then show ?case by (simp add: cached_ok_def Load_watch_def)
next
  case (reload s R t pth opts e s')
  then have ok: "cached_ok s" by simp
  from loader_Reload_cases [OF reload.hyps(2)] show ?case
  proof
    assume "s' = s" with ok show ?thesis by simp
  next
    assume "\<exists>a config config' out. store s a = Some config
       \<and> FrameworkConfig_Reload t config = Done (config', out)
       \<and> s' = s\<lparr>store := (store s)(a \<mapsto> config'), stdout := stdout s @ out\<rparr>"
    then obtain a config config' out where st: "store s a = Some config"
      and rl: "FrameworkConfig_Reload t config = Done (config', out)"
      and s': "s' = s\<lparr>store := (store s)(a \<mapsto> config'), stdout := stdout s @ out\<rparr>"
      by blast
    from Reload_fields [OF rl] cached_ok_store_update(1) [OF ok st]
    show ?thesis unfolding s' by simp
  qed
next
  case (change s pname changed)
  then have "cached_ok s" by simp
  then show ?case
    unfolding cached_ok_def
    by (metis notify_keeps)
next
  case (instance_load s a c t e c')
  then have ok: "cached_ok s" by simp
  from Load_fields [OF instance_load.hyps(3)]
    cached_ok_store_update(2) [OF ok instance_load.hyps(2)]
  show ?case by simp
next
  case (instance_reload s a c t c' out)
  then have ok: "cached_ok s" by simp
  from Reload_fields [OF instance_reload.hyps(3)]
    cached_ok_store_update(1) [OF ok instance_reload.hyps(2)]
  show ?case by simp
qed

lemma reachable_cached_ok: "reachable s \<Longrightarrow> cached_ok s"
  unfolding reachable_def
  by (erule evolves_cached_ok) (simp add: cached_ok_def newFullConfigLoad_def)

lemma notify_fold_key:
  "(pname, changed, key) \<notin> set ws \<Longrightarrow>
   configMap (foldl (\<lambda>s' (n, pth, k). if n = pname then onChange pth k changed s' else s') s ws) key
     = configMap s key"
proof (induction ws arbitrary: s)
  case Nil
  show ?case by simp
next
  case (Cons w ws)
  obtain n pth k where w: "w = (n, pth, k)" by (cases w)
  let ?s1 = "if n = pname then onChange pth k changed s else s"
  from Cons.prems w have "configMap ?s1 key = configMap s key"
    by (auto simp add: onChange_def)
  moreover from Cons.prems have "(pname, changed, key) \<notin> set ws" by simp
  ultimately show ?case using Cons.IH [of ?s1] by (simp add: w)
qed

lemma notify_no_eviction:
  "\<not> evicts pname changed s key \<Longrightarrow> configMap (notify pname changed s) key = configMap s key"
  unfolding evicts_def notify_def by (rule notify_fold_key)

lemma loader_Load_keeps_entry:
  assumes "FullConfigLoader_Load R t s pth opts = Done (r, s')" "configMap s key = Some a"
  shows "configMap s' key = Some a"
  using loader_Load_cases [OF assms(1)] assms(2) by auto

lemma loader_Reload_keeps_cache:
  assumes "FullConfigLoader_Reload R t s pth opts = Done (e, s')"
  shows "configMap s' = configMap s"
  using loader_Reload_cases [OF assms] by auto

lemma evolves_keeps_entry:
  "evolves K s0 s \<Longrightarrow> key \<in> K \<Longrightarrow> configMap s0 key = Some a \<Longrightarrow> configMap s key = Some a"
proof (induction rule: evolves.induct)
  case start
  then show ?case by simp
next
  case (load s R t pth opts r s')
  then show ?case using loader_Load_keeps_entry by blast
next
  case (load_insert s R sl pth opts yc prov key' t r s')
  from load_insert.hyps(3) load_insert.prems(1) have "key' \<noteq> key" by blast
  with Load_insert_cases [OF load_insert.hyps(4)] have "configMap s' key = configMap s key"
    by auto
  with load_insert show ?case by simp
next
  case (load_watch s prov pth key')
  then show ?case by (simp add: Load_watch_def)
next
  case (reload s R t pth opts e s')
  then show ?case using loader_Reload_keeps_cache by metis
next
  case (change s pname changed)
  then show ?case using notify_no_eviction by metis
next
  case (instance_load s a c t e c')
  then show ?case by simp
next
  case (instance_reload s a c t c' out)
  then show ?case by simp
qed

lemma loader_Load_hit:
  assumes "decoder (apply_opts (newFullConfig R pth) opts) = Some d"
    and "p (apply_opts (newFullConfig R pth) opts) = Some prov"
    and "configMap s (cache_key d prov pth) = Some a"
  shows "FullConfigLoader_Load R t s pth opts = Done (Inr a, s)"
  using assms by (simp add: FullConfigLoader_Load_def Let_def)

lemma loader_Load_result_cached:
  assumes "FullConfigLoader_Load R t s pth opts = Done (Inr a, s')"
    and "decoder (apply_opts (newFullConfig R pth) opts) = Some d"
    and "p (apply_opts (newFullConfig R pth) opts) = Some prov"
  shows "configMap s' (cache_key d prov pth) = Some a"
  using assms
  by (auto simp add: FullConfigLoader_Load_def Let_def
      split: option.splits exec.splits prod.splits)

lemma resolve_default:
  "decoder (apply_opts (newFullConfig example_registry pth) []) = Some example_codec"
  "p (apply_opts (newFullConfig example_registry pth) []) = Some example_provider"
  by (simp_all add: apply_opts_def newFullConfig_def example_registry_def YamlCodec_def
      example_codec_def)

lemma first_load:
  "FullConfigLoader_Load example_registry 0 newFullConfigLoad ''app.yaml'' [] = Done (Inr 0, loaded_state)"
  by (simp add: FullConfigLoader_Load_def FrameworkConfig_Load_def Let_def apply_opts_def
      newFullConfig_def example_registry_def YamlCodec_def example_provider_def
      example_Unmarshal_def newFullConfigLoad_def cache_key_def loaded_state_def
      example_config_def example_codec_def)


text \<open>
  C2 (the code departs from the claim). The claim: the loader's \<^verbatim>\<open>Load\<close> and \<^verbatim>\<open>Reload\<close> report
  failures through their error result and never panic, in particular when the options
  resolve to no provider or no decoder. \<^verbatim>\<open>Reload\<close> calls \<^verbatim>\<open>Name\<close> on the decoder and on the
  provider (line 88) without the nil checks that \<^verbatim>\<open>Load\<close> makes (lines 46-52): with an
  option that leaves the decoder nil, or with no provider registered as \<^verbatim>\<open>file\<close>, it
  panics, where \<^verbatim>\<open>Load\<close> returns \<^verbatim>\<open>ErrCodecNotExist\<close> and \<^verbatim>\<open>ErrProviderNotExist\<close>.
\<close>

theorem Reload_without_decoder_or_provider_panics:
  "FullConfigLoader_Reload example_registry 0 loaded_state ''app.yaml''
     [\<lambda>c. c\<lparr>decoder := None\<rparr>] = Panic
   \<and> FullConfigLoader_Reload (example_registry\<lparr>GetProvider := \<lambda>name. None\<rparr>) 0 loaded_state
     ''app.yaml'' [] = Panic
   \<and> FullConfigLoader_Load example_registry 0 loaded_state ''app.yaml''
     [\<lambda>c. c\<lparr>decoder := None\<rparr>] = Done (Inl ErrCodecNotExist, loaded_state)
   \<and> FullConfigLoader_Load (example_registry\<lparr>GetProvider := \<lambda>name. None\<rparr>) 0 loaded_state
     ''app.yaml'' [] = Done (Inl ErrProviderNotExist, loaded_state)"
  by (simp add: FullConfigLoader_Reload_def FullConfigLoader_Load_def Let_def apply_opts_def
      newFullConfig_def example_registry_def)

text \<open>
  C4. When the options resolve to a decoder and a provider and the instance-level load of
  the instance built from them fails, then on a cache miss, which is when the loader runs
  that load, the loader's \<^verbatim>\<open>Load\<close> returns the instance's error with the state unchanged;
  whether the key is cached or not, the call returns and the cache map after it is the
  cache map before it, and a call that returns an error returns the state it was given.
  The error is one of the two wrapped errors, of the read or of the parse.
\<close>

theorem Load_failure_leaves_cache:
  assumes "decoder (apply_opts (newFullConfig R pth) opts) = Some d"
    and "p (apply_opts (newFullConfig R pth) opts) = Some prov"
    and "FrameworkConfig_Load t (apply_opts (newFullConfig R pth) opts) = Done (Some err, yc')"
  shows "(configMap s (cache_key d prov pth) = None \<longrightarrow>
            FullConfigLoader_Load R t s pth opts = Done (Inl err, s))
     \<and> (\<exists>r s'. FullConfigLoader_Load R t s pth opts = Done (r, s') \<and> configMap s' = configMap s)
     \<and> (\<forall>e s'. FullConfigLoader_Load R t s pth opts = Done (Inl e, s') \<longrightarrow> s' = s)
     \<and> (\<exists>cause.
           err = ErrMsg (''app/config: failed to load ''
                          @ path (apply_opts (newFullConfig R pth) opts) @ '': '' @ cause)
         \<or> err = ErrMsg (''app/config: failed to parse ''
                          @ path (apply_opts (newFullConfig R pth) opts) @ '': '' @ cause))"
proof -
  have miss: "FullConfigLoader_Load R t s pth opts = Done (Inl err, s)"
    if "configMap s (cache_key d prov pth) = None"
    using assms that by (simp add: FullConfigLoader_Load_def Let_def)
  have "\<exists>r s'. FullConfigLoader_Load R t s pth opts = Done (r, s') \<and> configMap s' = configMap s"
  proof (cases "configMap s (cache_key d prov pth)")
    case None
    with miss show ?thesis by simp
  next
    case (Some a)
    from loader_Load_hit [OF assms(1,2) Some] show ?thesis by simp
  qed
  moreover from assms(2) have "p (apply_opts (newFullConfig R pth) opts) \<noteq> None" by simp
  note Load_error_text [OF assms(3) this]
  moreover have "\<forall>e s'. FullConfigLoader_Load R t s pth opts = Done (Inl e, s') \<longrightarrow> s' = s"
    using loader_Load_error_state by blast
  ultimately show ?thesis using miss by blast
qed

theorem Load_failure_leaves_cache_witness:
  "FullConfigLoader_Load example_registry 2 newFullConfigLoad ''app.yaml'' [] =
     Done (Inl (ErrMsg ''app/config: failed to parse app.yaml: syntax error''), newFullConfigLoad)
   \<and> FullConfigLoader_Load example_registry 0 newFullConfigLoad ''gone.yaml'' [] =
     Done (Inl (ErrMsg ''app/config: failed to load gone.yaml: no such file''), newFullConfigLoad)"
proof -
  let ?yc = "\<lambda>pth. apply_opts (newFullConfig example_registry pth) []"
  have parse: "FrameworkConfig_Load 2 (?yc ''app.yaml'') =
      Done (Some (ErrMsg ''app/config: failed to parse app.yaml: syntax error''),
            (?yc ''app.yaml'')\<lparr>rawData := ''{'', unmarshedData := VMapS []\<rparr>)"
    by (simp add: FrameworkConfig_Load_def Let_def apply_opts_def newFullConfig_def
        example_registry_def YamlCodec_def example_provider_def example_Unmarshal_def)
  have read: "FrameworkConfig_Load 0 (?yc ''gone.yaml'') =
      Done (Some (ErrMsg ''app/config: failed to load gone.yaml: no such file''), ?yc ''gone.yaml'')"
    by (simp add: FrameworkConfig_Load_def Let_def apply_opts_def newFullConfig_def
        example_registry_def YamlCodec_def example_provider_def)
  have miss: "configMap newFullConfigLoad key = None" for key
    by (simp add: newFullConfigLoad_def)
  from Load_failure_leaves_cache [OF resolve_default parse, of newFullConfigLoad]
  have 1: "FullConfigLoader_Load example_registry 2 newFullConfigLoad ''app.yaml'' [] =
      Done (Inl (ErrMsg ''app/config: failed to parse app.yaml: syntax error''), newFullConfigLoad)"
    by (simp add: miss)
  from Load_failure_leaves_cache [OF resolve_default read, of newFullConfigLoad]
  have 2: "FullConfigLoader_Load example_registry 0 newFullConfigLoad ''gone.yaml'' [] =
      Done (Inl (ErrMsg ''app/config: failed to load gone.yaml: no such file''), newFullConfigLoad)"
    by (simp add: miss)
  from 1 2 show ?thesis by blast
qed

text \<open>
  C5. In every reachable state of the loader, for options that resolve to a decoder and a
  provider: when the cache key is absent, the loader's \<^verbatim>\<open>Reload\<close> returns
  \<^verbatim>\<open>ErrConfigNotExist\<close> and changes nothing; when it is present, the cached instance's
  \<^verbatim>\<open>Reload\<close> runs on the instance in the store, and the loader's \<^verbatim>\<open>Reload\<close> returns nil
  with whatever that call made of the instance and printed, be it a replaced tree or an
  unchanged instance and a failure line.
\<close>

theorem Reload_by_cache_key:
  assumes "reachable s"
    and "decoder (apply_opts (newFullConfig R pth) opts) = Some d"
    and "p (apply_opts (newFullConfig R pth) opts) = Some prov"
  shows "(configMap s (cache_key d prov pth) = None \<longrightarrow>
            FullConfigLoader_Reload R t s pth opts = Done (Some ErrConfigNotExist, s))
     \<and> (\<forall>a. configMap s (cache_key d prov pth) = Some a \<longrightarrow>
          (\<exists>config config' out.
             store s a = Some config
             \<and> FrameworkConfig_Reload t config = Done (config', out)
             \<and> FullConfigLoader_Reload R t s pth opts =
                 Done (None, s\<lparr>store := (store s)(a \<mapsto> config'), stdout := stdout s @ out\<rparr>)))"
proof -
  have absent: "FullConfigLoader_Reload R t s pth opts = Done (Some ErrConfigNotExist, s)"
    if "configMap s (cache_key d prov pth) = None"
    using assms(2,3) that by (simp add: FullConfigLoader_Reload_def Let_def)
  have present: "\<exists>config config' out.
             store s a = Some config
             \<and> FrameworkConfig_Reload t config = Done (config', out)
             \<and> FullConfigLoader_Reload R t s pth opts =
                 Done (None, s\<lparr>store := (store s)(a \<mapsto> config'), stdout := stdout s @ out\<rparr>)"
    if hit: "configMap s (cache_key d prov pth) = Some a" for a
  proof -
    from reachable_cached_ok [OF assms(1)] hit obtain config where
      cfg: "store s a = Some config" "decoder config \<noteq> None"
      unfolding cached_ok_def by blast
    from Reload_returns [OF cfg(2)] obtain config' out where
      rl: "FrameworkConfig_Reload t config = Done (config', out)" by blast
    from assms(2,3) hit cfg(1) rl
    have "FullConfigLoader_Reload R t s pth opts =
        Done (None, s\<lparr>store := (store s)(a \<mapsto> config'), stdout := stdout s @ out\<rparr>)"
      by (simp add: FullConfigLoader_Reload_def Let_def)
    with cfg(1) rl show ?thesis by blast
  qed
  from absent present show ?thesis by blast
qed

theorem Reload_by_cache_key_witness:
  "reachable loaded_state
   \<and> FullConfigLoader_Reload example_registry 2 loaded_state ''app.yaml'' [] =
       Done (None, loaded_state\<lparr>store := (store loaded_state)(0 \<mapsto> example_config),
               stdout := [''app/config: failed to parse app.yaml: syntax error'']\<rparr>)
   \<and> FullConfigLoader_Reload example_registry 1 loaded_state ''app.yaml'' [] =
       Done (None, loaded_state\<lparr>store := (store loaded_state)
               (0 \<mapsto> example_config\<lparr>rawData := ''k: w'',
                                        unmarshedData := VMapS [(''k'', VString ''w'')]\<rparr>),
               stdout := []\<rparr>)
   \<and> FullConfigLoader_Reload example_registry 1 loaded_state ''other.yaml'' [] =
       Done (Some ErrConfigNotExist, loaded_state)"
proof -
  have r: "reachable loaded_state"
    unfolding reachable_def using evolves.load [OF evolves.start first_load] .
  have key: "cache_key example_codec example_provider ''app.yaml'' = ''yaml.file.app.yaml''"
    "cache_key example_codec example_provider ''other.yaml'' = ''yaml.file.other.yaml''"
    by (simp_all add: cache_key_def example_codec_def example_provider_def)
  have hit: "configMap loaded_state ''yaml.file.app.yaml'' = Some 0"
    and miss: "configMap loaded_state ''yaml.file.other.yaml'' = None"
    and st: "store loaded_state 0 = Some example_config"
    and out: "stdout loaded_state = []"
    by (simp_all add: loaded_state_def)
  have bad: "FrameworkConfig_Reload 2 example_config =
      Done (example_config, [''app/config: failed to parse app.yaml: syntax error''])"
    and good: "FrameworkConfig_Reload 1 example_config =
      Done (example_config\<lparr>rawData := ''k: w'', unmarshedData := VMapS [(''k'', VString ''w'')]\<rparr>,
            [])"
    by (simp_all add: FrameworkConfig_Reload_def example_config_def example_provider_def
        example_codec_def example_Unmarshal_def)
  from Reload_by_cache_key
    [where s = loaded_state and R = example_registry and pth = "''app.yaml''" and opts = "[]"
       and t = 2, OF r resolve_default]
    key hit st bad out
  have 1: "FullConfigLoader_Reload example_registry 2 loaded_state ''app.yaml'' [] =
       Done (None, loaded_state\<lparr>store := (store loaded_state)(0 \<mapsto> example_config),
               stdout := [''app/config: failed to parse app.yaml: syntax error'']\<rparr>)"
    by auto
  from Reload_by_cache_key
    [where s = loaded_state and R = example_registry and pth = "''app.yaml''" and opts = "[]"
       and t = 1, OF r resolve_default]
    key hit st good out
  have 2: "FullConfigLoader_Reload example_registry 1 loaded_state ''app.yaml'' [] =
       Done (None, loaded_state\<lparr>store := (store loaded_state)
               (0 \<mapsto> example_config\<lparr>rawData := ''k: w'',
                                        unmarshedData := VMapS [(''k'', VString ''w'')]\<rparr>),
               stdout := []\<rparr>)"
    by auto
  from Reload_by_cache_key
    [where s = loaded_state and R = example_registry and pth = "''other.yaml''" and opts = "[]"
       and t = 1, OF r resolve_default]
    key miss
  have 3: "FullConfigLoader_Reload example_registry 1 loaded_state ''other.yaml'' [] =
       Done (Some ErrConfigNotExist, loaded_state)"
    by auto
  from r 1 2 3 show ?thesis by blast
qed

text \<open>
  C9 (as the code has it). The claim, for any two calls of \<^verbatim>\<open>Load\<close>, fails for calls that
  overlap, with no eviction at all: a call that found the key missing (first line below)
  stores its own instance at line 68 without looking again. Here one call finds the key
  missing in the new loader; another call runs from the new loader to its end and returns
  the reference 0; the first call then loads, assigns and registers its callback and
  returns the reference 1; and a call after both returns 1, not 0.
\<close>

theorem Load_overlapping_counterexample:
  "Load_lookup example_registry newFullConfigLoad ''app.yaml'' [] =
     Missed (newFullConfig example_registry ''app.yaml'') example_provider ''yaml.file.app.yaml''
   \<and> FullConfigLoader_Load example_registry 0 newFullConfigLoad ''app.yaml'' [] =
     Done (Inr 0, loaded_state)
   \<and> Load_insert 0 loaded_state (newFullConfig example_registry ''app.yaml'') ''yaml.file.app.yaml'' =
     Done (Inr 1, loaded_state\<lparr>store := (store loaded_state)(1 \<mapsto> example_config),
                   next_ref := 2,
                   configMap := (configMap loaded_state)(''yaml.file.app.yaml'' \<mapsto> 1)\<rparr>)
   \<and> Load_watch (loaded_state\<lparr>store := (store loaded_state)(1 \<mapsto> example_config),
                   next_ref := 2,
                   configMap := (configMap loaded_state)(''yaml.file.app.yaml'' \<mapsto> 1)\<rparr>)
        example_provider ''app.yaml'' ''yaml.file.app.yaml'' = overwritten_state
   \<and> FullConfigLoader_Load example_registry 0 overwritten_state ''app.yaml'' [] =
     Done (Inr 1, overwritten_state)"
  by (simp add: first_load)
    (simp add: FullConfigLoader_Load_def Load_lookup_def Load_insert_def Load_watch_def
      FrameworkConfig_Load_def Let_def apply_opts_def newFullConfig_def example_registry_def
      YamlCodec_def example_provider_def example_Unmarshal_def cache_key_def loaded_state_def
      overwritten_state_def example_config_def example_codec_def newFullConfigLoad_def)

text \<open>
  C9, amended. The cache key is the decoder's name, a dot, the provider's name, a dot and
  the path: when a \<^verbatim>\<open>Load\<close> has found an instance in the cache or has stored its own, the
  cache maps exactly this string to the instance. Any later \<^verbatim>\<open>Load\<close> of the same path whose
  options resolve to a decoder and a provider of the same names finds this instance at its
  lookup and returns the same reference, changing nothing, whatever steps of other calls
  and change notifications came between the two cache accesses, as long as no
  notification evicted this key and no other \<^verbatim>\<open>Load\<close> that had found the key missing
  assigned it in between. The first call is a call that no other overlaps, or the lookup
  of a call that finds the instance, or the assignment of a call that found the key
  missing.
\<close>

theorem Load_returns_cached_instance:
  assumes "FullConfigLoader_Load R t s pth opts = Done (Inr a, s1)
       \<or> Load_lookup R s1 pth opts = Returned (Inr a)
       \<or> (Load_lookup R sl pth opts = Missed yc prov0 key0
           \<and> Load_insert t s yc key0 = Done (Inr a, s1))"
    and "decoder (apply_opts (newFullConfig R pth) opts) = Some d"
    and "p (apply_opts (newFullConfig R pth) opts) = Some prov"
    and "evolves {codec_Name d @ ''.'' @ prov_Name prov @ ''.'' @ pth} s1 s2"
    and "decoder (apply_opts (newFullConfig R' pth) opts') = Some d'"
    and "p (apply_opts (newFullConfig R' pth) opts') = Some prov'"
    and "codec_Name d' = codec_Name d" and "prov_Name prov' = prov_Name prov"
  shows "configMap s1 (codec_Name d @ ''.'' @ prov_Name prov @ ''.'' @ pth) = Some a
     \<and> Load_lookup R' s2 pth opts' = Returned (Inr a)
     \<and> FullConfigLoader_Load R' t' s2 pth opts' = Done (Inr a, s2)"
proof -
  let ?key = "codec_Name d @ ''.'' @ prov_Name prov @ ''.'' @ pth"
  have key: "cache_key d prov pth = ?key" "cache_key d' prov' pth = ?key"
    using assms(7,8) by (simp_all add: cache_key_def)
  have s1: "configMap s1 ?key = Some a"
    using assms(1)
  proof (elim disjE conjE)
    assume "FullConfigLoader_Load R t s pth opts = Done (Inr a, s1)"
    from loader_Load_result_cached [OF this assms(2,3)] key show ?thesis by simp
  next
    assume "Load_lookup R s1 pth opts = Returned (Inr a)"
    from Load_lookup_Returned [OF this assms(2,3)] key show ?thesis by simp
  next
    assume look: "Load_lookup R sl pth opts = Missed yc prov0 key0"
      and ins: "Load_insert t s yc key0 = Done (Inr a, s1)"
    from Load_lookup_Missed [OF look] assms(2,3) have "key0 = cache_key d prov pth" by auto
    with Load_insert_result_cached [OF ins] key show ?thesis by simp
  qed
  from evolves_keeps_entry [OF assms(4) _ s1] have "configMap s2 ?key = Some a" by simp
  with key have hit: "configMap s2 (cache_key d' prov' pth) = Some a" by simp
  from loader_Load_hit [OF assms(5,6) hit] Load_lookup_hit [OF assms(5,6) hit] s1
  show ?thesis by simp
qed

theorem Load_returns_cached_instance_witness:
  "FullConfigLoader_Load example_registry 0 newFullConfigLoad ''app.yaml'' [] =
     Done (Inr 0, loaded_state)
   \<and> configMap loaded_state ''yaml.file.app.yaml'' = Some 0
   \<and> FullConfigLoader_Load example_registry 2 (notify ''file'' ''other.yaml'' loaded_state)
       ''app.yaml'' [] = Done (Inr 0, notify ''file'' ''other.yaml'' loaded_state)
   \<and> configMap overwritten_state ''yaml.file.app.yaml'' = Some 1
   \<and> FullConfigLoader_Load example_registry 2 overwritten_state ''app.yaml'' [] =
       Done (Inr 1, overwritten_state)"
proof -
  let ?key = "codec_Name example_codec @ ''.'' @ prov_Name example_provider @ ''.'' @ ''app.yaml''"
  let ?yc = "newFullConfig example_registry ''app.yaml''"
  let ?ins = "loaded_state\<lparr>store := (store loaded_state)(1 \<mapsto> example_config),
      next_ref := 2, configMap := (configMap loaded_state)(''yaml.file.app.yaml'' \<mapsto> 1)\<rparr>"
  have key: "?key = ''yaml.file.app.yaml''"
    by (simp add: example_codec_def example_provider_def)
  have "\<forall>k\<in>{?key}. \<not> evicts ''file'' ''other.yaml'' loaded_state k"
    by (simp add: evicts_def loaded_state_def)
  from evolves.change [OF evolves.start this]
  have ev: "evolves {?key} loaded_state (notify ''file'' ''other.yaml'' loaded_state)" .
  from Load_returns_cached_instance
    [where R' = example_registry and opts' = "[]" and t' = 2,
      OF disjI1 [OF first_load] resolve_default ev resolve_default refl refl]
  have res: "configMap loaded_state ?key = Some 0
      \<and> FullConfigLoader_Load example_registry 2 (notify ''file'' ''other.yaml'' loaded_state)
          ''app.yaml'' [] = Done (Inr 0, notify ''file'' ''other.yaml'' loaded_state)"
    by blast
  then have 1: "configMap loaded_state ''yaml.file.app.yaml'' = Some 0"
    by (metis key)
  have look: "Load_lookup example_registry newFullConfigLoad ''app.yaml'' [] =
      Missed ?yc example_provider ''yaml.file.app.yaml''"
    and ins: "Load_insert 0 loaded_state ?yc ''yaml.file.app.yaml'' = Done (Inr 1, ?ins)"
    and watch: "Load_watch ?ins example_provider ''app.yaml'' ''yaml.file.app.yaml''
      = overwritten_state"
    by (simp_all add: Load_lookup_def Load_insert_def Load_watch_def
        FrameworkConfig_Load_def Let_def apply_opts_def newFullConfig_def example_registry_def
        YamlCodec_def example_provider_def example_Unmarshal_def cache_key_def loaded_state_def
        overwritten_state_def example_config_def example_codec_def newFullConfigLoad_def)
  from evolves.load_watch [OF evolves.start, of "{?key}" ?ins example_provider "''app.yaml''"
      "''yaml.file.app.yaml''"] watch
  have ev2: "evolves {?key} ?ins overwritten_state" by simp
  from Load_returns_cached_instance
    [where R' = example_registry and opts' = "[]" and t' = 2,
      OF disjI2 [OF disjI2 [OF conjI [OF look ins]]] resolve_default ev2 resolve_default
        refl refl]
  have res2: "configMap ?ins ?key = Some 1
      \<and> FullConfigLoader_Load example_registry 2 overwritten_state ''app.yaml'' [] =
          Done (Inr 1, overwritten_state)"
    by blast
  have 2: "configMap overwritten_state ''yaml.file.app.yaml'' = Some 1"
    by (simp add: overwritten_state_def)
  from res 1 res2 2 first_load show ?thesis by blast
qed

end
